theory Spec2Isabelle
  imports Main
begin

section \<open>ConMan daemon (server.c): data model\<close>

text \<open>
  The embedding follows \<^verbatim>\<open>src/server.c\<close> in its release build (\<^verbatim>\<open>NDEBUG\<close> defined,
  the build that daemonizes): \<^verbatim>\<open>assert\<close> and \<^verbatim>\<open>DPRINTF\<close> expand to nothing there.

  Objects live in the C heap and are reached through pointers from the master list
  \<^verbatim>\<open>conf->objs\<close>; the model keeps a store from references to objects and the master
  list as a list of references. Every call that leaves the process (a system call, a
  log message, a helper of another source file) is appended to a trace, so that the
  order of calls can be stated; what the operating system answers is read from an
  environment record.
\<close>

type_synonym ref = nat

text \<open>
  Modelled from the spec: the object type of \<^verbatim>\<open>server.h\<close> (not among the sources).
  The spec's data model gives an object a name, a kind, a descriptor (-1 when closed),
  a ring buffer with an in and an out position, the flags gotEOF and gotReset, and
  per-kind auxiliary state: gotSuspend for a client, the connect state for a telnet
  console, the owning console for a logfile. The fields carry the names
  \<^verbatim>\<open>server.c\<close> uses (\<^verbatim>\<open>obj->aux.telnet.conState\<close> is \<open>aux_telnet_conState\<close>).
\<close>

datatype obj_type = CONMAN_OBJ_CLIENT | CONMAN_OBJ_LOGFILE | CONMAN_OBJ_SERIAL | CONMAN_OBJ_TELNET

datatype telcon_state =
  CONMAN_TELCON_NONE | CONMAN_TELCON_DOWN | CONMAN_TELCON_PENDING | CONMAN_TELCON_UP

record obj =
  name :: string
  fd :: int
  otype :: obj_type
  bufInPtr :: nat
  bufOutPtr :: nat
  gotEOF :: bool
  gotReset :: bool
  aux_client_gotSuspend :: bool
  aux_telnet_conState :: telcon_state
  aux_logfile_console :: ref

type_synonym heap = "ref \<Rightarrow> obj"

definition is_client_obj :: "obj \<Rightarrow> bool" where
  "is_client_obj obj = (otype obj = CONMAN_OBJ_CLIENT)"

definition is_logfile_obj :: "obj \<Rightarrow> bool" where
  "is_logfile_obj obj = (otype obj = CONMAN_OBJ_LOGFILE)"

definition is_serial_obj :: "obj \<Rightarrow> bool" where
  "is_serial_obj obj = (otype obj = CONMAN_OBJ_SERIAL)"

definition is_telnet_obj :: "obj \<Rightarrow> bool" where
  "is_telnet_obj obj = (otype obj = CONMAN_OBJ_TELNET)"

definition is_console_obj :: "obj \<Rightarrow> bool" where
  "is_console_obj obj = (is_serial_obj obj \<or> is_telnet_obj obj)"

subsection \<open>Timed poll\<close>

text \<open>
  Modelled from the spec: \<^verbatim>\<open>tpoll.c\<close> is not among the sources. Section 4.B of the
  spec: \<open>zero_fds\<close> clears all fd interest and leaves the timers; \<open>set(fd, events)\<close>
  unions the event bits into the interest set of the fd; \<open>is_set(fd, events)\<close> tests
  whether any of the bits fired on the last wait; \<open>timer_absolute\<close> and
  \<open>timer_relative\<close> schedule a one-shot callback and return a timer id.
\<close>

datatype pollev = POLLIN | POLLOUT | POLLERR | POLLHUP

datatype callback = Cb_timestamp_logfiles | Cb_kill_console_reset int

datatype expiry = At_time int | After_ms int

record tpoll =
  fd_events :: "int \<Rightarrow> pollev set"
  fd_revents :: "int \<Rightarrow> pollev set"
  timers :: "(expiry \<times> callback) list"

definition tpoll_zero_fds :: "tpoll \<Rightarrow> tpoll" where
  "tpoll_zero_fds tp = tp\<lparr>fd_events := (\<lambda>_. {}), fd_revents := (\<lambda>_. {})\<rparr>"

definition tpoll_set :: "tpoll \<Rightarrow> int \<Rightarrow> pollev set \<Rightarrow> tpoll" where
  "tpoll_set tp f evs = tp\<lparr>fd_events := (fd_events tp)(f := fd_events tp f \<union> evs)\<rparr>"

definition tpoll_is_set :: "tpoll \<Rightarrow> int \<Rightarrow> pollev set \<Rightarrow> bool" where
  "tpoll_is_set tp f evs = (fd_revents tp f \<inter> evs \<noteq> {})"

definition tpoll_timeout_absolute :: "tpoll \<Rightarrow> callback \<Rightarrow> int \<Rightarrow> int \<times> tpoll" where
  "tpoll_timeout_absolute tp cb t =
     (int (length (timers tp)), tp\<lparr>timers := timers tp @ [(At_time t, cb)]\<rparr>)"

definition tpoll_timeout_relative :: "tpoll \<Rightarrow> callback \<Rightarrow> int \<Rightarrow> int \<times> tpoll" where
  "tpoll_timeout_relative tp cb ms =
     (int (length (timers tp)), tp\<lparr>timers := timers tp @ [(After_ms ms, cb)]\<rparr>)"

subsection \<open>Trace, process state, environment\<close>

datatype log_level = LOG_ERR | LOG_WARNING | LOG_NOTICE | LOG_INFO | LOG_DEBUG

text \<open>An argument of a printf-style call; \<open>Errno\<close> stands for \<^verbatim>\<open>strerror(errno)\<close>.\<close>

datatype arg = S string | I int | Errno

datatype event =
    Log_msg log_level string "arg list"
  | Sys_fork int
  | Sys_setpgid int int
  | Sys_kill int int
  | Sys_setrlimit int int
  | Sys_accept int
  | Sys_setsockopt_keepalive int
  | Pthread_create_process_client int
  | Open_serial_obj ref
  | Connect_telnet_obj ref
  | Open_logfile_obj ref bool
  | Read_from_obj ref
  | Write_to_obj ref
  | Write_obj_data ref string
  | List_delete ref
  | Log_set_file "nat option"
  | Log_set_syslog int
  | Sys_fopen string string
  | Sys_fclose nat
  | End_daemonize

text \<open>
  How the daemon's code stops running in this process: \<^verbatim>\<open>log_err\<close> (\<^verbatim>\<open>log.c\<close>, not
  among the sources; the spec: the message is reported and the daemon exits nonzero),
  \<^verbatim>\<open>out_of_memory\<close>, and the child side of \<^verbatim>\<open>fork\<close>, which execs the shell.
  \<open>Signed_overflow\<close> stands for an \<^verbatim>\<open>int\<close> sum beyond \<open>INT_MAX\<close>, where C defines
  no behaviour.
\<close>

datatype halt =
    Fatal string "arg list"
  | Out_of_memory
  | Child_exec_sh string
  | Signed_overflow

record sys =
  heap :: heap
  tp :: tpoll
  trace :: "event list"
  once :: bool

definition log_msg :: "log_level \<Rightarrow> string \<Rightarrow> arg list \<Rightarrow> sys \<Rightarrow> sys" where
  "log_msg lvl fmt args s = s\<lparr>trace := trace s @ [Log_msg lvl fmt args]\<rparr>"

definition emit :: "event \<Rightarrow> sys \<Rightarrow> sys" where
  "emit ev s = s\<lparr>trace := trace s @ [ev]\<rparr>"

text \<open>
  What the rest of the repository supplies to \<^verbatim>\<open>server.c\<close>: constants of
  \<^verbatim>\<open>common.h\<close> and \<^verbatim>\<open>server.h\<close> and the helpers of \<^verbatim>\<open>server-obj.c\<close>,
  \<^verbatim>\<open>server-sock.c\<close>, \<^verbatim>\<open>server-serial.c\<close> and \<^verbatim>\<open>server-logfile.c\<close>, none
  among the sources. They are parameters of the model. A helper acts on the objects and
  on the timed poll (through \<^verbatim>\<open>tp_global\<close>); the trace is out of its reach.
  \<open>x_format_obj_string size obj fmt\<close> is \<open>None\<close> where the C function returns a
  negative value (the expansion does not fit \<open>size\<close> bytes).
\<close>

record extern =
  x_MAX_LINE :: nat
  x_RESET_CMD_TIMEOUT :: int
  x_CONMAN_MSG_PREFIX :: string
  x_CONMAN_MSG_SUFFIX :: string
  x_format_obj_string :: "nat \<Rightarrow> obj option \<Rightarrow> string option \<Rightarrow> string option"
  x_write_obj_data :: "ref \<Rightarrow> string \<Rightarrow> bool \<Rightarrow> heap \<Rightarrow> heap"
  x_read_from_obj :: "ref \<Rightarrow> tpoll \<times> heap \<Rightarrow> int \<times> tpoll \<times> heap"
  x_write_to_obj :: "ref \<Rightarrow> tpoll \<times> heap \<Rightarrow> int \<times> tpoll \<times> heap"
  x_connect_telnet_obj :: "ref \<Rightarrow> tpoll \<times> heap \<Rightarrow> tpoll \<times> heap"
  x_open_serial_obj :: "ref \<Rightarrow> tpoll \<times> heap \<Rightarrow> tpoll \<times> heap"
  x_open_logfile_obj :: "ref \<Rightarrow> bool \<Rightarrow> tpoll \<times> heap \<Rightarrow> tpoll \<times> heap"

text \<open>
  What the operating system answers. \<open>e_fork r\<close> is the value of \<^verbatim>\<open>fork()\<close> when
  console \<open>r\<close> is reset, \<open>e_malloc r\<close> whether the \<^verbatim>\<open>malloc\<close> of that reset
  succeeds, \<open>e_kill p sig\<close> the value of \<^verbatim>\<open>kill(p, sig)\<close>, \<open>e_getrlimit\<close> the
  soft and the hard limit \<^verbatim>\<open>getrlimit(RLIMIT_NOFILE)\<close> stores (\<open>None\<close> when it
  fails), \<open>e_setrlimit cur max\<close> the value of \<^verbatim>\<open>setrlimit\<close> for these limits.
\<close>

record env =
  e_fork :: "ref \<Rightarrow> int"
  e_malloc :: "ref \<Rightarrow> bool"
  e_kill :: "int \<Rightarrow> int \<Rightarrow> int"
  e_getrlimit :: "(int \<times> int) option"
  e_setrlimit :: "int \<Rightarrow> int \<Rightarrow> int"

definition SIGKILL :: int where
  "SIGKILL = 9"

section \<open>Resetting a console\<close>

text \<open>
  \<^verbatim>\<open>reset_console\<close> (server.c 773-828). The flag is cleared first; the command is
  expanded; the process forks. In the child (\<^verbatim>\<open>pid == 0\<close>) the shell is exec'd, and
  whether or not the exec succeeds the child never returns into the daemon's loop. In
  the parent the child is made a process group leader and a timer is set.
\<close>

definition reset_console :: "extern \<Rightarrow> env \<Rightarrow> ref \<Rightarrow> string option \<Rightarrow> sys \<Rightarrow> halt + sys" where
  "reset_console x e console cmd s0 =
     (let s = s0\<lparr>heap := (heap s0)(console := (heap s0 console)\<lparr>gotReset := False\<rparr>)\<rparr> in
      case x_format_obj_string x (x_MAX_LINE x) (Some (heap s console)) cmd of
        None \<Rightarrow>
          Inr (log_msg LOG_NOTICE ''Unable to reset console [%s]: command too long''
                 [S (name (heap s console))] s)
      | Some cmdbuf \<Rightarrow>
          (let pid = e_fork e console; s1 = emit (Sys_fork pid) s in
           if pid < 0 then
             Inr (log_msg LOG_NOTICE ''Unable to reset console [%s]: %s''
                    [S (name (heap s console)), Errno] s1)
           else if pid = 0 then Inl (Child_exec_sh cmdbuf)
           else
             (let s2 = emit (Sys_setpgid pid 0) s1 in
              if \<not> e_malloc e console then Inl Out_of_memory
              else
                (let (tid, tp') = tpoll_timeout_relative (tp s2) (Cb_kill_console_reset pid)
                                    (x_RESET_CMD_TIMEOUT x * 1000);
                     s3 = s2\<lparr>tp := tp'\<rparr>
                 in if tid < 0 then
                      Inr (log_msg LOG_ERR ''Unable to create timer for resetting console [%s]''
                             [S (name (heap s console))] s3)
                    else Inr s3))))"

text \<open>\<^verbatim>\<open>kill_console_reset\<close> (server.c 831-850), the timer's callback.\<close>

definition kill_console_reset :: "extern \<Rightarrow> env \<Rightarrow> int \<Rightarrow> sys \<Rightarrow> sys" where
  "kill_console_reset x e pid s =
     (let s1 = emit (Sys_kill pid 0) s in
      if e_kill e pid 0 < 0 then s1
      else
        (let s2 = emit (Sys_kill (- pid) SIGKILL) s1 in
         if e_kill e (- pid) SIGKILL = 0 then
           log_msg LOG_NOTICE ''ResetCmd process pid=%d exceeded %ds time limit''
             [I pid, I (x_RESET_CMD_TIMEOUT x)] s2
         else s2))"

section \<open>The multiplexor: building the interest set\<close>

text \<open>The body of the first loop of \<^verbatim>\<open>mux_io\<close> after the reset (server.c 535-551).\<close>

definition mux_set_obj :: "obj \<Rightarrow> tpoll \<Rightarrow> tpoll" where
  "mux_set_obj obj tp0 =
     (if fd obj < 0 then tp0
      else
        (let tp1 = (if (is_telnet_obj obj \<and> aux_telnet_conState obj = CONMAN_TELCON_UP)
                       \<or> is_serial_obj obj \<or> is_client_obj obj
                    then tpoll_set tp0 (fd obj) {POLLIN} else tp0);
             tp2 = (if (bufInPtr obj \<noteq> bufOutPtr obj \<or> gotEOF obj)
                       \<and> \<not> (is_client_obj obj \<and> aux_client_gotSuspend obj)
                    then tpoll_set tp1 (fd obj) {POLLOUT} else tp1);
             tp3 = (if is_telnet_obj obj \<and> aux_telnet_conState obj = CONMAN_TELCON_PENDING
                    then tpoll_set tp2 (fd obj) {POLLIN, POLLOUT} else tp2)
         in tp3))"

text \<open>The loop over the master list (server.c 529-552).\<close>

fun mux_set_objs :: "extern \<Rightarrow> env \<Rightarrow> string option \<Rightarrow> ref list \<Rightarrow> sys \<Rightarrow> halt + sys" where
  "mux_set_objs x e cmd [] s = Inr s"
| "mux_set_objs x e cmd (r # rs) s =
     (case (if gotReset (heap s r) then reset_console x e r cmd s else Inr s) of
        Inl h \<Rightarrow> Inl h
      | Inr s1 \<Rightarrow> mux_set_objs x e cmd rs (s1\<lparr>tp := mux_set_obj (heap s1 r) (tp s1)\<rparr>))"

text \<open>
  The server configuration, as far as \<^verbatim>\<open>server.c\<close> reads it. \<^verbatim>\<open>conf->tp\<close> and
  \<^verbatim>\<open>tp_global\<close> point to one timed poll, the \<open>tp\<close> of the process state.
\<close>

record conf =
  objs :: "ref list"
  ld :: int
  resetCmd :: "string option"
  tStampMinutes :: int
  tStampNext :: int
  enableKeepAlive :: bool
  enableZeroLogs :: bool
  logFileName :: "string option"
  logFmtName :: "string option"
  logFileLevel :: int
  logFilePtr :: "nat option"
  syslogFacility :: int

text \<open>The start of a tick (server.c 526-552).\<close>

definition mux_io_set_fds :: "extern \<Rightarrow> env \<Rightarrow> conf \<Rightarrow> sys \<Rightarrow> halt + sys" where
  "mux_io_set_fds x e c s =
     mux_set_objs x e (resetCmd c) (objs c)
       (s\<lparr>tp := tpoll_set (tpoll_zero_fds (tp s)) (ld c) {POLLIN}\<rparr>)"

text \<open>
  The three registration rules in the words of the spec: readable for a serial, a
  client or a telnet in state UP; writable for a non-empty buffer or gotEOF unless the
  object is a suspended client; readable and writable for a telnet in state PENDING.
\<close>

definition spec_interest :: "obj \<Rightarrow> pollev set" where
  "spec_interest obj =
     (if is_serial_obj obj \<or> is_client_obj obj
         \<or> (is_telnet_obj obj \<and> aux_telnet_conState obj = CONMAN_TELCON_UP)
      then {POLLIN} else {})
     \<union> (if (bufInPtr obj \<noteq> bufOutPtr obj \<or> gotEOF obj)
            \<and> \<not> (is_client_obj obj \<and> aux_client_gotSuspend obj)
         then {POLLOUT} else {})
     \<union> (if is_telnet_obj obj \<and> aux_telnet_conState obj = CONMAN_TELCON_PENDING
         then {POLLIN, POLLOUT} else {})"

text \<open>
  The condition under which the loop registers an object at all: the union of the
  three rules is non-empty (a client is always registered readable, so its suspension
  does not matter here).
\<close>

definition spec_polled :: "obj \<Rightarrow> bool" where
  "spec_polled obj =
     (is_serial_obj obj \<or> is_client_obj obj
      \<or> (is_telnet_obj obj \<and> (aux_telnet_conState obj = CONMAN_TELCON_UP
                                \<or> aux_telnet_conState obj = CONMAN_TELCON_PENDING))
      \<or> bufInPtr obj \<noteq> bufOutPtr obj \<or> gotEOF obj)"

section \<open>Timestamps\<close>

text \<open>
  \<^verbatim>\<open>struct tm\<close> of the C library. \<^verbatim>\<open>schedule_timestamp\<close> reads and writes the
  seconds, minutes and hours only; the date fields stay as they are and are held here
  as one number, the days since the epoch. Local time is a fixed number of seconds
  ahead of UTC (no change of daylight saving time in the period looked at).
  \<open>mktime\<close> normalises fields out of range, which is what makes
  \<^verbatim>\<open>tm.tm_min += conf->tStampMinutes\<close> work.
\<close>

record tm =
  tm_sec :: int
  tm_min :: int
  tm_hour :: int
  tm_days :: int

definition localtime :: "int \<Rightarrow> int \<Rightarrow> tm" where
  "localtime utc_off t =
     (let l = t + utc_off in
      \<lparr>tm_sec = l mod 60, tm_min = (l div 60) mod 60, tm_hour = (l div 3600) mod 24,
       tm_days = l div 86400\<rparr>)"

definition mktime :: "int \<Rightarrow> tm \<Rightarrow> int" where
  "mktime utc_off tm =
     ((tm_days tm * 24 + tm_hour tm) * 60 + tm_min tm) * 60 + tm_sec tm - utc_off"

text \<open>What the clock answers when it is read.\<close>

record clock =
  utc_offset :: int
  time_now :: int
  long_time_string :: string

text \<open>
  Modelled from the spec: \<^verbatim>\<open>get_localtime\<close> (\<^verbatim>\<open>util.c\<close>, not among the sources).
  The spec computes the first deadline from the current wall-clock time and
  \<^verbatim>\<open>schedule_timestamp\<close> passes it the stored deadline, which is 0 the first time:
  a time of 0 is replaced by the current time, and the time is converted to local time.
\<close>

definition get_localtime :: "clock \<Rightarrow> int \<Rightarrow> int \<times> tm" where
  "get_localtime clk t =
     (let t' = (if t = 0 then time_now clk else t) in (t', localtime (utc_offset clk) t'))"

text \<open>C's integer division truncates towards zero.\<close>

definition c_div :: "int \<Rightarrow> int \<Rightarrow> int" where
  "c_div a b = (if (a < 0) = (b < 0) then \<bar>a\<bar> div \<bar>b\<bar> else - (\<bar>a\<bar> div \<bar>b\<bar>))"

definition INT_MAX :: int where
  "INT_MAX = 2147483647"

text \<open>
  \<^verbatim>\<open>schedule_timestamp\<close> (server.c 349-390). The sum in
  \<^verbatim>\<open>tm.tm_min += conf->tStampMinutes\<close> is an \<^verbatim>\<open>int\<close>: where it would pass
  \<open>INT_MAX\<close> the C program has no defined behaviour, which the model reports.
\<close>

definition schedule_timestamp ::
  "clock \<Rightarrow> conf \<Rightarrow> sys \<Rightarrow> halt + conf \<times> sys" where
  "schedule_timestamp clk c s =
     (let (t0, tm0) = get_localtime clk (tStampNext c) in
      if tStampNext c \<noteq> 0 \<and> tm_min tm0 + tStampMinutes c > INT_MAX then Inl Signed_overflow
      else
        (let tm1 = (if tStampNext c = 0 then
                      (let numCompleted =
                             c_div ((tm_hour tm0 * 60) + tm_min tm0) (tStampMinutes c)
                       in tm0\<lparr>tm_min := (numCompleted + 1) * tStampMinutes c, tm_hour := 0\<rparr>)
                    else tm0\<lparr>tm_min := tm_min tm0 + tStampMinutes c\<rparr>);
             tm2 = tm1\<lparr>tm_sec := 0\<rparr>;
             t = mktime (utc_offset clk) tm2
         in if t = - 1 then
              Inl (Fatal ''Unable to determine time of next logfile timestamp'' [Errno])
            else
              (let c' = c\<lparr>tStampNext := t\<rparr>;
                   (tid, tp') = tpoll_timeout_absolute (tp s) Cb_timestamp_logfiles t
               in if tid < 0 then
                    Inl (Fatal ''Unable to create timer for timestamping logfiles'' [])
                  else Inr (c', s\<lparr>tp := tp'\<rparr>))))"

text \<open>
  The timer set by one call fires and sets the next: the chain of calls of
  \<^verbatim>\<open>schedule_timestamp\<close>, one for each reading of the clock in the list.
\<close>

fun schedule_timestamps ::
  "clock list \<Rightarrow> conf \<Rightarrow> sys \<Rightarrow> halt + conf \<times> sys" where
  "schedule_timestamps [] c s = Inr (c, s)"
| "schedule_timestamps (clk # clks) c s =
     (case schedule_timestamp clk c s of
        Inl h \<Rightarrow> Inl h
      | Inr (c', s') \<Rightarrow> schedule_timestamps clks c' s')"

text \<open>
  In the words of the spec: local midnight of the day of a clock reading, as a time,
  and the whole minutes of local time elapsed since then.
\<close>

definition start_of_day :: "clock \<Rightarrow> int" where
  "start_of_day clk = (time_now clk + utc_offset clk) div 86400 * 86400 - utc_offset clk"

definition minute_of_day :: "clock \<Rightarrow> int" where
  "minute_of_day clk = ((time_now clk + utc_offset clk) mod 86400) div 60"

text \<open>
  The instant \<open>k * m\<close> minutes past that midnight, and the number of such instants
  that have passed when the clock is read.
\<close>

definition slot_time :: "clock \<Rightarrow> int \<Rightarrow> int \<Rightarrow> int" where
  "slot_time clk m k = start_of_day clk + k * m * 60"

definition slots_completed :: "clock \<Rightarrow> int \<Rightarrow> int" where
  "slots_completed clk m = minute_of_day clk div m"

text \<open>
  The line \<^verbatim>\<open>timestamp_logfiles\<close> builds (server.c 408-412): \<^verbatim>\<open>snprintf\<close> stores
  at most \<open>MAX_LINE - 1\<close> characters of the formatted text and a NUL; \<^verbatim>\<open>strcpy\<close>
  then stores CR, LF and NUL at offset \<open>MAX_LINE - 3\<close>; \<^verbatim>\<open>strlen\<close> reads the buffer up
  to its first NUL. When fewer than \<open>MAX_LINE - 3\<close> characters were stored, the NUL of
  \<^verbatim>\<open>snprintf\<close> comes first and the text is as formatted; otherwise it is the first
  \<open>MAX_LINE - 3\<close> characters followed by CR LF. (Strings are C strings: no NUL inside.
  \<open>MAX_LINE\<close> is at least 3.)
\<close>

definition CRLF :: string where
  "CRLF = [CHR 0x0D, CHR 0x0A]"

definition timestamp_text :: "extern \<Rightarrow> string \<Rightarrow> string \<Rightarrow> string" where
  "timestamp_text x nm now =
     x_CONMAN_MSG_PREFIX x @ ''Console ['' @ nm @ ''] log at '' @ now @ x_CONMAN_MSG_SUFFIX x"

definition timestamp_line :: "extern \<Rightarrow> string \<Rightarrow> string \<Rightarrow> string" where
  "timestamp_line x nm now =
     (let buf = take (x_MAX_LINE x - 1) (timestamp_text x nm now) in
      if length buf < x_MAX_LINE x - 3 then buf
      else take (x_MAX_LINE x - 3) buf @ CRLF)"

text \<open>The loop of \<^verbatim>\<open>timestamp_logfiles\<close> (server.c 405-414) with its flag \<open>gotLogs\<close>.\<close>

fun timestamp_objs :: "extern \<Rightarrow> string \<Rightarrow> ref list \<Rightarrow> bool \<Rightarrow> sys \<Rightarrow> bool \<times> sys" where
  "timestamp_objs x now [] gotLogs s = (gotLogs, s)"
| "timestamp_objs x now (r # rs) gotLogs s =
     (if \<not> is_logfile_obj (heap s r) then timestamp_objs x now rs gotLogs s
      else
        (let buf = timestamp_line x (name (heap s (aux_logfile_console (heap s r)))) now;
             s1 = (emit (Write_obj_data r buf) s)\<lparr>heap := x_write_obj_data x r buf True (heap s)\<rparr>
         in timestamp_objs x now rs True s1))"

text \<open>
  What the loop needs of \<^verbatim>\<open>write_obj_data\<close>, which is not among the sources: it
  changes buffers, not what an object is (its kind, its name, the console a logfile
  belongs to).
\<close>

definition keeps_identity :: "(heap \<Rightarrow> heap) \<Rightarrow> bool" where
  "keeps_identity f =
     (\<forall>h r. otype (f h r) = otype (h r) \<and> name (f h r) = name (h r)
            \<and> aux_logfile_console (f h r) = aux_logfile_console (h r))"

text \<open>\<^verbatim>\<open>timestamp_logfiles\<close> (server.c 393-424), the callback of the timestamp timer.\<close>

definition timestamp_logfiles ::
  "extern \<Rightarrow> clock \<Rightarrow> conf \<Rightarrow> sys \<Rightarrow> halt + conf \<times> sys" where
  "timestamp_logfiles x clk c s =
     (let (gotLogs, s1) = timestamp_objs x (long_time_string clk) (objs c) False s in
      if gotLogs then schedule_timestamp clk c s1 else Inr (c, s1))"

section \<open>Opening the objects\<close>

text \<open>
  The conversions of C on an LP64 platform: to \<^verbatim>\<open>int\<close> (32 bits, two's complement)
  and to \<^verbatim>\<open>rlim_t\<close> (64 bits, unsigned).
\<close>

definition to_int :: "int \<Rightarrow> int" where
  "to_int v = (v + 2 ^ 31) mod 2 ^ 32 - 2 ^ 31"

definition to_rlim :: "int \<Rightarrow> int" where
  "to_rlim v = v mod 2 ^ 64"

definition obj_type_code :: "obj_type \<Rightarrow> int" where
  "obj_type_code ty =
     (case ty of CONMAN_OBJ_CLIENT \<Rightarrow> 0 | CONMAN_OBJ_LOGFILE \<Rightarrow> 1
      | CONMAN_OBJ_SERIAL \<Rightarrow> 2 | CONMAN_OBJ_TELNET \<Rightarrow> 3)"

text \<open>The loop of \<^verbatim>\<open>open_objs\<close> (server.c 484-496).\<close>

fun open_obj_list :: "extern \<Rightarrow> bool \<Rightarrow> ref list \<Rightarrow> sys \<Rightarrow> halt + sys" where
  "open_obj_list x zero [] s = Inr s"
| "open_obj_list x zero (r # rs) s =
     (if is_serial_obj (heap s r) then
        (let (tp', h') = x_open_serial_obj x r (tp s, heap s) in
         open_obj_list x zero rs ((emit (Open_serial_obj r) s)\<lparr>tp := tp', heap := h'\<rparr>))
      else if is_telnet_obj (heap s r) then
        (let (tp', h') = x_connect_telnet_obj x r (tp s, heap s) in
         open_obj_list x zero rs ((emit (Connect_telnet_obj r) s)\<lparr>tp := tp', heap := h'\<rparr>))
      else if is_logfile_obj (heap s r) then
        (let (tp', h') = x_open_logfile_obj x r zero (tp s, heap s) in
         open_obj_list x zero rs ((emit (Open_logfile_obj r zero) s)\<lparr>tp := tp', heap := h'\<rparr>))
      else Inl (Fatal ''INTERNAL: Unrecognized object [%s] type=%d''
                  [S (name (heap s r)), I (obj_type_code (otype (heap s r)))]))"

text \<open>
  The limit on open files (server.c 474-483). \<open>n\<close> is an \<^verbatim>\<open>int\<close>; \<^verbatim>\<open>MAX\<close> compares
  an \<^verbatim>\<open>rlim_t\<close> with an \<^verbatim>\<open>int\<close>, and so does \<^verbatim>\<open>limit.rlim_cur < n\<close>: the
  \<^verbatim>\<open>int\<close> is converted to \<^verbatim>\<open>rlim_t\<close> each time, and the maximum back to \<^verbatim>\<open>int\<close>.
\<close>

definition open_objs_limit :: "env \<Rightarrow> conf \<Rightarrow> sys \<Rightarrow> halt + sys" where
  "open_objs_limit e c s =
     (case e_getrlimit e of
        None \<Rightarrow> Inl (Fatal ''Unable to get the num open file limit'' [Errno])
      | Some (rlim_cur, rlim_max) \<Rightarrow>
          (let n = to_int (max rlim_max (to_rlim (to_int (int (length (objs c)) * 2)))) in
           if rlim_cur < to_rlim n then
             (let s1 = emit (Sys_setrlimit (to_rlim n) (to_rlim n)) s in
              if e_setrlimit e (to_rlim n) (to_rlim n) < 0 then
                Inr (log_msg LOG_ERR ''Unable to set the num open file limit to %d'' [I n] s1)
              else
                Inr (log_msg LOG_INFO ''Increased the num open file limit to %d'' [I n] s1))
           else Inr s))"

text \<open>\<^verbatim>\<open>open_objs\<close> (server.c 465-498).\<close>

definition open_objs :: "extern \<Rightarrow> env \<Rightarrow> conf \<Rightarrow> sys \<Rightarrow> halt + sys" where
  "open_objs x e c s =
     (case open_objs_limit e c s of
        Inl h \<Rightarrow> Inl h
      | Inr s1 \<Rightarrow> open_obj_list x (enableZeroLogs c) (objs c) s1)"

section \<open>The multiplexor: accepting a client\<close>

text \<open>
  What waits at the listening socket, in the order \<^verbatim>\<open>accept\<close> meets it: a
  connection (with the descriptor it will get), an interrupting signal (\<^verbatim>\<open>EINTR\<close>),
  a connection that was aborted (\<^verbatim>\<open>ECONNABORTED\<close>), another error. With nothing
  waiting, the non-blocking \<^verbatim>\<open>accept\<close> fails with \<^verbatim>\<open>EAGAIN\<close> or
  \<^verbatim>\<open>EWOULDBLOCK\<close>.
\<close>

datatype pending = Connection int | Interrupt | Aborted_connection | Accept_error

text \<open>
  The \<^verbatim>\<open>while\<close> loop of \<^verbatim>\<open>accept_client\<close> (server.c 740-748). The result is the
  accepted descriptor, or \<open>None\<close> where the function returns without one.
\<close>

fun accept_retry :: "pending list \<Rightarrow> sys \<Rightarrow> halt + (int option \<times> pending list \<times> sys)" where
  "accept_retry [] s = Inr (None, [], emit (Sys_accept (- 1)) s)"
| "accept_retry (Connection sd # q) s = Inr (Some sd, q, emit (Sys_accept sd) s)"
| "accept_retry (Interrupt # q) s = accept_retry q (emit (Sys_accept (- 1)) s)"
| "accept_retry (Aborted_connection # q) s = Inr (None, q, emit (Sys_accept (- 1)) s)"
| "accept_retry (Accept_error # q) s = Inl (Fatal ''Unable to accept new connection'' [Errno])"

text \<open>What the system answers to the calls that follow a successful \<^verbatim>\<open>accept\<close>.\<close>

record accept_env =
  a_setsockopt :: int
  a_malloc :: bool
  a_pthread_create :: int

text \<open>
  \<^verbatim>\<open>accept_client\<close> (server.c 721-770). The thread it creates runs
  \<^verbatim>\<open>process_client\<close> (another source file) on the descriptor; the model records the
  creation.
\<close>

definition accept_client ::
  "accept_env \<Rightarrow> conf \<Rightarrow> pending list \<Rightarrow> sys \<Rightarrow> halt + (pending list \<times> sys)" where
  "accept_client ae c q s =
     (case accept_retry q s of
        Inl h \<Rightarrow> Inl h
      | Inr (None, q', s') \<Rightarrow> Inr (q', s')
      | Inr (Some sd, q', s') \<Rightarrow>
          (let s1 = (if enableKeepAlive c then emit (Sys_setsockopt_keepalive sd) s' else s') in
           if enableKeepAlive c \<and> a_setsockopt ae < 0 then
             Inl (Fatal ''Unable to set KEEPALIVE socket option'' [Errno])
           else if \<not> a_malloc ae then Inl Out_of_memory
           else
             (let s2 = emit (Pthread_create_process_client sd) s1 in
              if a_pthread_create ae \<noteq> 0 then Inl (Fatal ''Unable to create new thread'' [Errno])
              else Inr (q', s2))))"

text \<open>The call in \<^verbatim>\<open>mux_io\<close> (server.c 564-566).\<close>

definition mux_io_accept ::
  "accept_env \<Rightarrow> conf \<Rightarrow> pending list \<Rightarrow> sys \<Rightarrow> halt + (pending list \<times> sys)" where
  "mux_io_accept ae c q s =
     (if tpoll_is_set (tp s) (ld c) {POLLIN} then accept_client ae c q s else Inr (q, s))"

text \<open>The descriptors handed to new threads, in the order of a trace.\<close>

fun created_threads :: "event list \<Rightarrow> int list" where
  "created_threads [] = []"
| "created_threads (Pthread_create_process_client sd # evs) = sd # created_threads evs"
| "created_threads (ev # evs) = created_threads evs"

section \<open>The multiplexor: dispatching reads and writes\<close>

text \<open>The calls of the helpers, recorded in the trace.\<close>

definition read_from_obj :: "extern \<Rightarrow> ref \<Rightarrow> sys \<Rightarrow> int \<times> sys" where
  "read_from_obj x r s =
     (let (rc, tp', h') = x_read_from_obj x r (tp s, heap s) in
      (rc, (emit (Read_from_obj r) s)\<lparr>tp := tp', heap := h'\<rparr>))"

definition write_to_obj :: "extern \<Rightarrow> ref \<Rightarrow> sys \<Rightarrow> int \<times> sys" where
  "write_to_obj x r s =
     (let (rc, tp', h') = x_write_to_obj x r (tp s, heap s) in
      (rc, (emit (Write_to_obj r) s)\<lparr>tp := tp', heap := h'\<rparr>))"

definition connect_telnet_obj :: "extern \<Rightarrow> ref \<Rightarrow> sys \<Rightarrow> sys" where
  "connect_telnet_obj x r s =
     (let (tp', h') = x_connect_telnet_obj x r (tp s, heap s) in
      (emit (Connect_telnet_obj r) s)\<lparr>tp := tp', heap := h'\<rparr>)"

text \<open>
  The second loop of \<^verbatim>\<open>mux_io\<close> (server.c 572-602). The body for one object returns
  whether the object stays in the master list (\<^verbatim>\<open>list_delete\<close> removes it); first the
  part from the test of \<^verbatim>\<open>POLLOUT\<close> on (593-601), where the closing test of the fd
  only ends the body.
\<close>

definition mux_write_obj :: "extern \<Rightarrow> ref \<Rightarrow> sys \<Rightarrow> bool \<times> sys" where
  "mux_write_obj x r s =
     (if tpoll_is_set (tp s) (fd (heap s r)) {POLLOUT} then
        (let (rc, s1) = write_to_obj x r s in
         if rc < 0 then (False, emit (List_delete r) s1) else (True, s1))
      else (True, s))"

definition mux_dispatch_obj :: "extern \<Rightarrow> ref \<Rightarrow> sys \<Rightarrow> bool \<times> sys" where
  "mux_dispatch_obj x r s =
     (if fd (heap s r) < 0 then (True, s)
      else if is_telnet_obj (heap s r)
              \<and> tpoll_is_set (tp s) (fd (heap s r)) {POLLIN, POLLOUT}
              \<and> aux_telnet_conState (heap s r) = CONMAN_TELCON_PENDING
      then (True, connect_telnet_obj x r s)
      else if tpoll_is_set (tp s) (fd (heap s r)) {POLLIN, POLLHUP, POLLERR} then
        (let (rc, s1) = read_from_obj x r s in
         if rc < 0 then (False, emit (List_delete r) s1)
         else if fd (heap s1 r) < 0 then (True, s1)
         else mux_write_obj x r s1)
      else mux_write_obj x r s)"

text \<open>The loop; it returns the master list as it is after the deletions.\<close>

fun mux_dispatch :: "extern \<Rightarrow> ref list \<Rightarrow> sys \<Rightarrow> ref list \<times> sys" where
  "mux_dispatch x [] s = ([], s)"
| "mux_dispatch x (r # rs) s =
     (let (keep, s1) = mux_dispatch_obj x r s;
          (ks, s2) = mux_dispatch x rs s1
      in ((if keep then [r] else []) @ ks, s2))"

text \<open>The events the part from the test of \<^verbatim>\<open>POLLOUT\<close> on can add for an object.\<close>

definition write_events :: "ref \<Rightarrow> event list set" where
  "write_events r = {[], [Write_to_obj r], [Write_to_obj r, List_delete r]}"

section \<open>The daemon's logfile and the end of the startup\<close>

text \<open>
  What the C library and the system answer to \<^verbatim>\<open>open_daemon_logfile\<close>: the stream
  \<^verbatim>\<open>fopen\<close> returns (\<open>None\<close> for \<^verbatim>\<open>NULL\<close>), the values of \<^verbatim>\<open>fileno\<close> and of
  \<^verbatim>\<open>get_write_lock\<close> (\<^verbatim>\<open>util-file.c\<close>), and whether \<^verbatim>\<open>fclose\<close> of a stream
  returns \<^verbatim>\<open>EOF\<close>.
\<close>

text \<open>The double quote of the messages.\<close>

definition dq :: string where
  "dq = [CHR 0x22]"

record logfile_env =
  l_fopen :: "nat option"
  l_fileno :: int
  l_get_write_lock :: int
  l_fclose_EOF :: "nat \<Rightarrow> bool"

definition log_file_name :: "conf \<Rightarrow> string" where
  "log_file_name c = (case logFileName c of None \<Rightarrow> [] | Some n \<Rightarrow> n)"

text \<open>Closing the stream in use, with the warning (server.c 680-683 and 691-694).\<close>

definition close_logFilePtr :: "logfile_env \<Rightarrow> conf \<Rightarrow> sys \<Rightarrow> sys" where
  "close_logFilePtr le c s =
     (case logFilePtr c of
        None \<Rightarrow> s
      | Some fp \<Rightarrow>
          (let s1 = emit (Sys_fclose fp) s in
           if l_fclose_EOF le fp then
             log_msg LOG_WARNING (''Unable to close daemon logfile '' @ dq @ ''%s'' @ dq)
               [S (log_file_name c)] s1
           else s1))"

text \<open>The label \<^verbatim>\<open>err\<close> (server.c 687-696): abandon the old log file and go logless.\<close>

definition open_daemon_logfile_err :: "logfile_env \<Rightarrow> conf \<Rightarrow> sys \<Rightarrow> conf \<times> sys" where
  "open_daemon_logfile_err le c s =
     (c\<lparr>logFilePtr := None\<rparr>, close_logFilePtr le c (emit (Log_set_file None) s))"

text \<open>
  The expansion of the conversion specifiers in the name (server.c 633-644); \<open>None\<close>
  when the expanded name does not fit.
\<close>

definition expand_log_name :: "extern \<Rightarrow> conf \<Rightarrow> conf option" where
  "expand_log_name x c =
     (case logFmtName c of
        None \<Rightarrow> Some c
      | Some f \<Rightarrow>
          (case x_format_obj_string x (x_MAX_LINE x) None (Some f) of
             None \<Rightarrow> None
           | Some buf \<Rightarrow> Some (c\<lparr>logFileName := Some buf\<rparr>)))"

text \<open>
  \<^verbatim>\<open>open_daemon_logfile\<close> (server.c 609-697). It returns to its caller on every
  path: it calls \<^verbatim>\<open>log_msg\<close>, never \<^verbatim>\<open>log_err\<close>. The static \<^verbatim>\<open>once\<close> is the
  \<open>once\<close> of the process state. The \<^verbatim>\<open>umask\<close> calls and
  \<^verbatim>\<open>set_fd_closed_on_exec\<close> on the opened stream leave no mark in the model.
\<close>

definition open_daemon_logfile :: "extern \<Rightarrow> logfile_env \<Rightarrow> conf \<Rightarrow> sys \<Rightarrow> conf \<times> sys" where
  "open_daemon_logfile x le c0 s0 =
     (let mode = (if once s0 \<and> enableZeroLogs c0 then ''w'' else ''a'');
          s = s0\<lparr>once := False\<rparr>
      in case expand_log_name x c0 of
           None \<Rightarrow>
             open_daemon_logfile_err le c0
               (log_msg LOG_WARNING ''Unable to open daemon logfile: filename too long'' [] s)
         | Some c \<Rightarrow>
             (let s1 = emit (Sys_fopen (log_file_name c) mode) s in
              case l_fopen le of
                None \<Rightarrow>
                  open_daemon_logfile_err le c
                    (log_msg LOG_WARNING
                       (''Unable to open daemon logfile '' @ dq @ ''%s'' @ dq @ '': %s'')
                       [S (log_file_name c), Errno] s1)
              | Some fp \<Rightarrow>
                  if l_fileno le < 0 then
                    open_daemon_logfile_err le c
                      (log_msg LOG_WARNING
                         (''Unable to obtain descriptor for daemon logfile '' @ dq @ ''%s'' @ dq
                            @ '': %s'')
                         [S (log_file_name c), Errno] s1)
                  else if l_get_write_lock le < 0 then
                    (let s2 = log_msg LOG_WARNING
                                (''Unable to lock daemon logfile '' @ dq @ ''%s'' @ dq)
                                [S (log_file_name c)] s1;
                         s3 = emit (Sys_fclose fp) s2;
                         s4 = (if l_fclose_EOF le fp then
                                 log_msg LOG_WARNING
                                   (''Unable to close daemon logfile '' @ dq @ ''%s'' @ dq)
                                   [S (log_file_name c)] s3
                               else s3)
                     in open_daemon_logfile_err le c s4)
                  else
                    (c\<lparr>logFilePtr := Some fp\<rparr>,
                     close_logFilePtr le c (emit (Log_set_file (Some fp)) s1))))"

text \<open>
  \<^verbatim>\<open>end_daemonize\<close> (server.c 223-256): each failing call is fatal through
  \<^verbatim>\<open>log_err\<close>. \<open>d_failed\<close> is the first call that fails, if any, counted from 0:
  \<^verbatim>\<open>chdir\<close>, \<^verbatim>\<open>open\<close>, the three \<^verbatim>\<open>dup2\<close>, the \<^verbatim>\<open>close\<close> of /dev/null, the
  \<^verbatim>\<open>close\<close> of the pipe.
\<close>

definition end_daemonize_messages :: "string list" where
  "end_daemonize_messages =
     [''Unable to change to root directory'',
      ''Unable to open '' @ dq @ ''/dev/null'' @ dq,
      ''Unable to dup '' @ dq @ ''/dev/null'' @ dq @ '' onto stdin'',
      ''Unable to dup '' @ dq @ ''/dev/null'' @ dq @ '' onto stdout'',
      ''Unable to dup '' @ dq @ ''/dev/null'' @ dq @ '' onto stderr'',
      ''Unable to close '' @ dq @ ''/dev/null'' @ dq,
      ''Unable to close write-pipe in grandchild'']"

definition end_daemonize :: "nat option \<Rightarrow> int \<Rightarrow> sys \<Rightarrow> halt + sys" where
  "end_daemonize d_failed pipe_fd s =
     (case d_failed of
        None \<Rightarrow> Inr (emit End_daemonize s)
      | Some k \<Rightarrow>
          if k < 6 \<or> (k = 6 \<and> 0 \<le> pipe_fd) then Inl (Fatal (end_daemonize_messages ! k) [Errno])
          else Inr (emit End_daemonize s))"

text \<open>
  The end of \<^verbatim>\<open>main\<close> before the multiplexor runs (server.c 119-133), in the build
  that daemonizes. \<open>version\<close> and \<open>pid\<close> are what the start message prints.
\<close>

definition main_startup ::
  "extern \<Rightarrow> env \<Rightarrow> logfile_env \<Rightarrow> nat option \<Rightarrow> int \<Rightarrow> string \<Rightarrow> int
     \<Rightarrow> conf \<Rightarrow> sys \<Rightarrow> halt + conf \<times> sys" where
  "main_startup x e le d_failed pipe_fd version pid c s =
     (let s1 = (if syslogFacility c > 0 then emit (Log_set_syslog (syslogFacility c)) s else s);
          (c1, s2) = (if logFileName c \<noteq> None then open_daemon_logfile x le c s1 else (c, s1))
      in case end_daemonize d_failed pipe_fd s2 of
           Inl h \<Rightarrow> Inl h
         | Inr s3 \<Rightarrow>
             (let s4 = (if logFileName c1 = None then emit (Log_set_file None) s3 else s3);
                  s5 = log_msg LOG_NOTICE ''Starting ConMan daemon %s (pid %d)''
                         [S version, I pid] s4
              in case open_objs x e c1 s5 of
                   Inl h \<Rightarrow> Inl h
                 | Inr s6 \<Rightarrow> Inr (c1, s6)))"

text \<open>
  The daemon's logfile cannot be opened: the expansion of its name does not fit,
  \<^verbatim>\<open>fopen\<close> fails, the stream has no descriptor, or the write lock is not granted.
\<close>

definition logfile_open_fails :: "extern \<Rightarrow> logfile_env \<Rightarrow> conf \<Rightarrow> bool" where
  "logfile_open_fails x le c =
     (expand_log_name x c = None \<or> l_fopen le = None \<or> l_fileno le < 0
      \<or> l_get_write_lock le < 0)"

section \<open>Example inputs\<close>

definition ex_obj :: obj where
  "ex_obj = \<lparr>name = [], fd = - 1, otype = CONMAN_OBJ_SERIAL, bufInPtr = 0, bufOutPtr = 0,
     gotEOF = False, gotReset = False, aux_client_gotSuspend = False,
     aux_telnet_conState = CONMAN_TELCON_NONE, aux_logfile_console = 0\<rparr>"

text \<open>
  A serial console on fd 4 that was asked to reset, its logfile on fd 5 with nothing to
  write, a suspended client on fd 6 with three bytes pending, a telnet console on fd 7
  whose connect is pending, and a telnet console that is down (fd -1) and asked to
  reset.
\<close>

definition ex_heap :: heap where
  "ex_heap = (\<lambda>_. ex_obj)
     (0 := ex_obj\<lparr>name := ''c1'', fd := 4, gotReset := True\<rparr>,
      1 := ex_obj\<lparr>name := ''/tmp/c1.log'', fd := 5, otype := CONMAN_OBJ_LOGFILE,
             aux_logfile_console := 0\<rparr>,
      2 := ex_obj\<lparr>name := ''user@host'', fd := 6, otype := CONMAN_OBJ_CLIENT, bufInPtr := 3,
             aux_client_gotSuspend := True\<rparr>,
      3 := ex_obj\<lparr>name := ''c2'', fd := 7, otype := CONMAN_OBJ_TELNET,
             aux_telnet_conState := CONMAN_TELCON_PENDING\<rparr>,
      4 := ex_obj\<lparr>name := ''c3'', otype := CONMAN_OBJ_TELNET, gotReset := True,
             aux_telnet_conState := CONMAN_TELCON_DOWN\<rparr>)"

definition ex_tpoll :: tpoll where
  "ex_tpoll = \<lparr>fd_events = (\<lambda>_. {}), fd_revents = (\<lambda>_. {}), timers = []\<rparr>"

definition ex_sys :: sys where
  "ex_sys = \<lparr>heap = ex_heap, tp = ex_tpoll, trace = [], once = True\<rparr>"

definition ex_conf :: conf where
  "ex_conf = \<lparr>objs = [0, 1, 2, 3, 4], ld = 3, resetCmd = Some ''/sbin/reset %N'',
     tStampMinutes = 15, tStampNext = 0, enableKeepAlive = True, enableZeroLogs = False,
     logFileName = Some ''/var/log/conman.log'', logFmtName = None, logFileLevel = 5,
     logFilePtr = None, syslogFacility = 0\<rparr>"

text \<open>
  Stand-ins for the helpers of the other source files: an expansion that fits when the
  template does, an enqueue that advances the in position, and read, write and
  connect helpers that report success and change nothing.
\<close>

definition ex_extern :: extern where
  "ex_extern = \<lparr>x_MAX_LINE = 1024, x_RESET_CMD_TIMEOUT = 60,
     x_CONMAN_MSG_PREFIX = [CHR 0x0D, CHR 0x0A] @ ''<ConMan> '',
     x_CONMAN_MSG_SUFFIX = ''.'' @ [CHR 0x0D, CHR 0x0A],
     x_format_obj_string =
       (\<lambda>n obj fmt. case fmt of None \<Rightarrow> None
                      | Some f \<Rightarrow> if length f < n then Some f else None),
     x_write_obj_data =
       (\<lambda>r l info h. h(r := (h r)\<lparr>bufInPtr := bufInPtr (h r) + length l\<rparr>)),
     x_read_from_obj = (\<lambda>r m. (0, m)),
     x_write_to_obj = (\<lambda>r m. (0, m)),
     x_connect_telnet_obj = (\<lambda>r m. m),
     x_open_serial_obj = (\<lambda>r m. m),
     x_open_logfile_obj = (\<lambda>r z m. m)\<rparr>"

definition ex_env :: env where
  "ex_env = \<lparr>e_fork = (\<lambda>r. if r = 4 then - 1 else 100), e_malloc = (\<lambda>_. True),
     e_kill = (\<lambda>p sig. if p = 100 \<or> p = - 100 then 0 else - 1),
     e_getrlimit = Some (1024, 4096), e_setrlimit = (\<lambda>rlim_cur rlim_max. 0)\<rparr>"

text \<open>
  Three readings of a clock one hour ahead of UTC: 10:07:30 local time, and, two and
  seven seconds late, the firings of the timers of 10:15:00 and 10:30:00.
\<close>

definition ex_clock :: clock where
  "ex_clock = \<lparr>utc_offset = 3600, time_now = 1728032850,
     long_time_string = ''2024-10-04 10:07:30 CET''\<rparr>"

definition ex_clock2 :: clock where
  "ex_clock2 = \<lparr>utc_offset = 3600, time_now = 1728033302,
     long_time_string = ''2024-10-04 10:15:02 CET''\<rparr>"

definition ex_clock3 :: clock where
  "ex_clock3 = \<lparr>utc_offset = 3600, time_now = 1728034207,
     long_time_string = ''2024-10-04 10:30:07 CET''\<rparr>"

text \<open>The same objects, the serial console having a name of 1000 characters.\<close>

definition ex_long_heap :: heap where
  "ex_long_heap = ex_heap(0 := (ex_heap 0)\<lparr>name := replicate 1000 (CHR ''n'')\<rparr>)"

definition ex_long_sys :: sys where
  "ex_long_sys = ex_sys\<lparr>heap := ex_long_heap\<rparr>"

text \<open>The configuration at startup: no client has connected yet.\<close>

definition ex_start_conf :: conf where
  "ex_start_conf = ex_conf\<lparr>objs := [0, 1, 3, 4]\<rparr>"

text \<open>
  After a wait of the timed poll: the listening socket on fd 3 is readable, the serial
  console on fd 4 readable and writable, the client on fd 6 writable.
\<close>

definition ex_polled_sys :: sys where
  "ex_polled_sys =
     ex_sys\<lparr>tp := ex_tpoll\<lparr>fd_revents :=
       (\<lambda>_. {})(3 := {POLLIN}, 4 := {POLLIN, POLLOUT}, 6 := {POLLOUT})\<rparr>\<rparr>"

text \<open>The calls after \<^verbatim>\<open>accept\<close> all succeed.\<close>

definition ex_accept_env :: accept_env where
  "ex_accept_env = \<lparr>a_setsockopt = 0, a_malloc = True, a_pthread_create = 0\<rparr>"

text \<open>The logfile opens, but another process holds its write lock.\<close>

definition ex_logfile_env :: logfile_env where
  "ex_logfile_env = \<lparr>l_fopen = Some 1, l_fileno = 9, l_get_write_lock = - 1,
     l_fclose_EOF = (\<lambda>_. False)\<rparr>"

text \<open>
  Hard limits beyond the range of \<^verbatim>\<open>int\<close>: one of \<open>2 ^ 32\<close> with a soft limit of
  1024, and an unlimited one as a platform with \<^verbatim>\<open>RLIM_INFINITY\<close> \<open>= 2 ^ 63 - 1\<close>
  reports it, with a soft limit of 256 and a \<^verbatim>\<open>setrlimit\<close> that refuses.
\<close>

definition ex_big_env :: env where
  "ex_big_env = ex_env\<lparr>e_getrlimit := Some (1024, 4294967296)\<rparr>"

definition ex_unlimited_env :: env where
  "ex_unlimited_env = ex_env\<lparr>e_getrlimit := Some (256, 9223372036854775807),
     e_setrlimit := (\<lambda>rlim_cur rlim_max. - 1)\<rparr>"

section \<open>The interest set of a tick\<close>


lemma reset_console_Inr:
  assumes "reset_console x e r cmd s = Inr s1"
  shows "fd_events (tp s1) = fd_events (tp s)"
    and "fd_revents (tp s1) = fd_revents (tp s)"
    and "heap s1 = (heap s)(r := (heap s r)\<lparr>gotReset := False\<rparr>)"
  using assms
  by (auto simp: reset_console_def Let_def log_msg_def emit_def tpoll_timeout_relative_def
      split: option.splits if_splits)

lemma reset_console_completes:
  assumes "e_fork e r \<noteq> 0" and "e_malloc e r"
  shows "\<exists>s1. reset_console x e r cmd s = Inr s1"
  using assms
  by (auto simp: reset_console_def Let_def tpoll_timeout_relative_def split: option.splits)

lemma mux_set_obj_events:
  "fd_events (mux_set_obj obj tp0) f =
     fd_events tp0 f \<union> (if fd obj = f \<and> 0 \<le> f then spec_interest obj else {})"
  by (auto simp: mux_set_obj_def spec_interest_def tpoll_set_def Let_def)

lemma spec_interest_gotReset [simp]:
  "spec_interest (obj\<lparr>gotReset := b\<rparr>) = spec_interest obj"
  by (simp add: spec_interest_def is_serial_obj_def is_client_obj_def is_telnet_obj_def)

lemma mux_set_objs_completes:
  "\<forall>r\<in>set rs. e_fork e r \<noteq> 0 \<and> e_malloc e r \<Longrightarrow> \<exists>s'. mux_set_objs x e cmd rs s = Inr s'"
proof (induction rs arbitrary: s)
  case Nil
  then show ?case by simp
next
  case (Cons a rs)
  then have a: "e_fork e a \<noteq> 0" "e_malloc e a" by simp_all
  from reset_console_completes [OF a] obtain s1 where "reset_console x e a cmd s = Inr s1"
    by blast
  with Cons show ?case by simp
qed

lemma mux_set_objs_heap:
  "mux_set_objs x e cmd rs s = Inr s' \<Longrightarrow>
     heap s' r = (heap s r)\<lparr>gotReset := (gotReset (heap s r) \<and> r \<notin> set rs)\<rparr>"
proof (induction rs arbitrary: s)
  case Nil
  then show ?case by simp
next
  case (Cons a rs)
  show ?case
  proof (cases "gotReset (heap s a)")
    case True
    with Cons.prems obtain s1 where r1: "reset_console x e a cmd s = Inr s1"
      and rest: "mux_set_objs x e cmd rs (s1\<lparr>tp := mux_set_obj (heap s1 a) (tp s1)\<rparr>) = Inr s'"
      by (auto split: sum.splits)
    from Cons.IH [OF rest] reset_console_Inr(3) [OF r1] show ?thesis
      by (cases "r = a") auto
  next
    case False
    with Cons.prems have
      rest: "mux_set_objs x e cmd rs (s\<lparr>tp := mux_set_obj (heap s a) (tp s)\<rparr>) = Inr s'"
      by simp
    from Cons.IH [OF rest] False show ?thesis
      by (cases "r = a") auto
  qed
qed

lemma mux_set_objs_events:
  "mux_set_objs x e cmd rs s = Inr s' \<Longrightarrow>
     fd_events (tp s') f =
       fd_events (tp s) f
       \<union> (\<Union>r\<in>set rs. if fd (heap s r) = f \<and> 0 \<le> f then spec_interest (heap s r) else {})"
proof (induction rs arbitrary: s)
  case Nil
  then show ?case by simp
next
  case (Cons a rs)
  show ?case
  proof (cases "gotReset (heap s a)")
    case True
    with Cons.prems obtain s1 where r1: "reset_console x e a cmd s = Inr s1"
      and rest: "mux_set_objs x e cmd rs (s1\<lparr>tp := mux_set_obj (heap s1 a) (tp s1)\<rparr>) = Inr s'"
      by (auto split: sum.splits)
    have h: "heap s1 = (heap s)(a := (heap s a)\<lparr>gotReset := False\<rparr>)"
      by (rule reset_console_Inr(3) [OF r1])
    have same: "\<And>r. fd (heap s1 r) = fd (heap s r) \<and> spec_interest (heap s1 r) = spec_interest (heap s r)"
      by (simp add: h)
    from Cons.IH [OF rest] show ?thesis
      by (simp add: mux_set_obj_events same reset_console_Inr(1) [OF r1] Un_assoc)
  next
    case False
    with Cons.prems have
      rest: "mux_set_objs x e cmd rs (s\<lparr>tp := mux_set_obj (heap s a) (tp s)\<rparr>) = Inr s'"
      by simp
    from Cons.IH [OF rest] show ?thesis
      by (simp add: mux_set_obj_events Un_assoc)
  qed
qed

lemma mux_io_set_fds_events:
  assumes "mux_io_set_fds x e c s = Inr s'"
  shows "fd_events (tp s') f =
           (if f = ld c then {POLLIN} else {})
           \<union> (\<Union>r\<in>set (objs c).
                 if fd (heap s r) = f \<and> 0 \<le> f then spec_interest (heap s r) else {})"
  using mux_set_objs_events [OF assms [unfolded mux_io_set_fds_def], of f]
  by (simp add: tpoll_set_def tpoll_zero_fds_def)

text \<open>
  Claim C1. At the start of a tick the interest set is cleared and the listener is
  registered readable; then, for the objects of the master list with fd >= 0, read
  interest is registered for a serial, a client or a telnet in state UP, write
  interest for a non-empty buffer or gotEOF except for a suspended client, and both
  for a telnet in state PENDING, and nothing else is registered: the interest of every
  fd is the union of \<open>spec_interest\<close> over the objects on that fd. The tick gets
  there whenever no reset of this pass is the child side of a fork or runs out of
  memory.
\<close>

theorem mux_io_interest:
  assumes "\<forall>r\<in>set (objs c). e_fork e r \<noteq> 0 \<and> e_malloc e r"
  shows "\<exists>s'. mux_io_set_fds x e c s = Inr s' \<and>
           (\<forall>f. fd_events (tp s') f =
              (if f = ld c then {POLLIN} else {})
              \<union> (\<Union>r\<in>set (objs c).
                    if fd (heap s r) = f \<and> 0 \<le> f then spec_interest (heap s r) else {}))"
proof -
  from mux_set_objs_completes [OF assms] obtain s' where s': "mux_io_set_fds x e c s = Inr s'"
    unfolding mux_io_set_fds_def by blast
  with mux_io_set_fds_events [OF s'] show ?thesis by blast
qed

text \<open>Unfolding the example inputs and the tick's definitions.\<close>

lemmas ex_defs = ex_conf_def ex_sys_def ex_heap_def ex_obj_def ex_tpoll_def ex_extern_def ex_env_def


lemmas run_defs = mux_io_set_fds_def reset_console_def mux_set_obj_def Let_def
        tpoll_set_def tpoll_zero_fds_def tpoll_timeout_relative_def emit_def log_msg_def
         is_serial_obj_def is_client_obj_def is_telnet_obj_def

theorem mux_io_interest_witness:
  "list_all (\<lambda>r. e_fork ex_env r \<noteq> 0 \<and> e_malloc ex_env r) (objs ex_conf) \<and>
   (\<exists>s'. mux_io_set_fds ex_extern ex_env ex_conf ex_sys = Inr s' \<and>
      fd_events (tp s') 3 = {POLLIN} \<and> fd_events (tp s') 4 = {POLLIN} \<and>
      fd_events (tp s') 5 = {} \<and> fd_events (tp s') 6 = {POLLIN} \<and>
      fd_events (tp s') 7 = {POLLIN, POLLOUT} \<and> fd_events (tp s') (- 1) = {})"
proof -
  have h: "\<forall>r\<in>set (objs ex_conf). e_fork ex_env r \<noteq> 0 \<and> e_malloc ex_env r"
    by (simp add: ex_conf_def ex_env_def)
  from mux_io_interest [OF h, of ex_extern ex_sys]
  obtain s' where s': "mux_io_set_fds ex_extern ex_env ex_conf ex_sys = Inr s'"
    and ev: "\<And>f. fd_events (tp s') f =
              (if f = ld ex_conf then {POLLIN} else {})
              \<union> (\<Union>r\<in>set (objs ex_conf).
                    if fd (heap ex_sys r) = f \<and> 0 \<le> f then spec_interest (heap ex_sys r) else {})"
    by blast
  have "fd_events (tp s') 3 = {POLLIN}" "fd_events (tp s') 4 = {POLLIN}"
    "fd_events (tp s') 5 = {}" "fd_events (tp s') 6 = {POLLIN}"
    "fd_events (tp s') 7 = {POLLIN, POLLOUT}" "fd_events (tp s') (- 1) = {}"
    by (simp_all add: ev ex_defs spec_interest_def is_serial_obj_def is_client_obj_def is_telnet_obj_def)
  with s' h show ?thesis by (simp add: list_all_iff)
qed

text \<open>
  Claim C2 as stated fails: the logfile of the example has fd 5 and an empty buffer,
  and the tick registers nothing for fd 5.
\<close>

theorem every_open_fd_polled_counterexample:
  "0 \<le> fd (heap ex_sys 1) \<and> 1 \<in> set (objs ex_conf) \<and>
   \<not> isl (mux_io_set_fds ex_extern ex_env ex_conf ex_sys) \<and>
   fd_events (tp (projr (mux_io_set_fds ex_extern ex_env ex_conf ex_sys))) (fd (heap ex_sys 1)) = {}"
  by (simp add: ex_defs run_defs)


lemma spec_polled_iff: "(spec_interest obj \<noteq> {}) = spec_polled obj"
  by (auto simp: spec_interest_def spec_polled_def)

text \<open>
  Claim C2, amended. No negative fd is registered in the interest set, so an object
  whose fd is -1 is never polled; apart from the listener's, an fd is registered
  exactly when it is the fd (>= 0) of an object of the master list that is a serial, a
  client, a telnet in state UP or PENDING, or has a non-empty buffer or gotEOF set. An
  object with fd >= 0 outside these cases (a logfile with nothing to write) is not
  registered.
\<close>

theorem mux_io_polled:
  assumes "mux_io_set_fds x e c s = Inr s'" and "0 \<le> ld c"
  shows "(\<forall>f. f < 0 \<longrightarrow> fd_events (tp s') f = {}) \<and>
         (\<forall>f. f \<noteq> ld c \<longrightarrow>
            (fd_events (tp s') f \<noteq> {}) =
            (\<exists>r\<in>set (objs c). fd (heap s r) = f \<and> 0 \<le> f \<and> spec_polled (heap s r)))"
proof -
  have neg: "fd_events (tp s') f = {}" if "f < 0" for f
    using that assms(2) by (simp add: mux_io_set_fds_events [OF assms(1)])
  have pos: "(fd_events (tp s') f \<noteq> {}) =
      (\<exists>r\<in>set (objs c). fd (heap s r) = f \<and> 0 \<le> f \<and> spec_polled (heap s r))"
    if "f \<noteq> ld c" for f
    using that
    by (auto simp: mux_io_set_fds_events [OF assms(1)] spec_polled_iff [symmetric]
        split: if_splits)
  from neg pos show ?thesis by blast
qed

theorem mux_io_polled_witness:
  "\<not> isl (mux_io_set_fds ex_extern ex_env ex_conf ex_sys) \<and> 0 \<le> ld ex_conf \<and>
   fd_events (tp (projr (mux_io_set_fds ex_extern ex_env ex_conf ex_sys))) (- 1) = {} \<and>
   fd_events (tp (projr (mux_io_set_fds ex_extern ex_env ex_conf ex_sys))) 4 \<noteq> {} \<and>
   spec_polled (heap ex_sys 0) \<and>
   fd_events (tp (projr (mux_io_set_fds ex_extern ex_env ex_conf ex_sys))) 5 = {} \<and>
   \<not> spec_polled (heap ex_sys 1)"
proof -
  obtain s' where s': "mux_io_set_fds ex_extern ex_env ex_conf ex_sys = Inr s'"
    by (simp add: ex_defs run_defs)
  have ld: "0 \<le> ld ex_conf" by (simp add: ex_conf_def)
  note t = mux_io_polled [OF s' ld]
  from t have "fd_events (tp s') (- 1) = {}" by simp
  moreover from t have "(fd_events (tp s') 4 \<noteq> {}) =
      (\<exists>r\<in>set (objs ex_conf). fd (heap ex_sys r) = 4 \<and> (0::int) \<le> 4 \<and> spec_polled (heap ex_sys r))"
    by (simp add: ex_conf_def)
  then have "fd_events (tp s') 4 \<noteq> {}"
    by (simp add: ex_defs spec_polled_def is_serial_obj_def)
  moreover from t have "(fd_events (tp s') 5 \<noteq> {}) =
      (\<exists>r\<in>set (objs ex_conf). fd (heap ex_sys r) = 5 \<and> (0::int) \<le> 5 \<and> spec_polled (heap ex_sys r))"
    by (simp add: ex_conf_def)
  then have "fd_events (tp s') 5 = {}"
    by (simp add: ex_defs spec_polled_def is_serial_obj_def is_client_obj_def is_telnet_obj_def)
  moreover have "spec_polled (heap ex_sys 0)" "\<not> spec_polled (heap ex_sys 1)"
    by (simp_all add: ex_defs spec_polled_def is_serial_obj_def is_client_obj_def is_telnet_obj_def)
  ultimately show ?thesis using s' ld by simp
qed

section \<open>The reset flag\<close>

lemma mux_set_objs_no_reset:
  "\<forall>r\<in>set rs. \<not> gotReset (heap s r) \<Longrightarrow>
     \<exists>s'. mux_set_objs x e cmd rs s = Inr s' \<and> trace s' = trace s \<and> heap s' = heap s
        \<and> timers (tp s') = timers (tp s)"
proof (induction rs arbitrary: s)
  case Nil
  then show ?case by simp
next
  case (Cons a rs)
  have t: "timers (mux_set_obj obj tp0) = timers tp0" for obj tp0
    by (simp add: mux_set_obj_def tpoll_set_def Let_def)
  from Cons.prems have "\<forall>r\<in>set rs. \<not> gotReset (heap (s\<lparr>tp := mux_set_obj (heap s a) (tp s)\<rparr>) r)"
    by simp
  from Cons.IH [OF this] Cons.prems show ?case by (simp add: t)
qed

text \<open>
  Claim C10. \<open>reset_console\<close> clears gotReset before anything else: when the
  expansion of the command fails, and when fork fails, it returns with the flag
  cleared, a notice logged and no timer set; whenever it returns the flag is cleared.
  The loop tests gotReset before it tests the fd, so after the first loop of a tick no
  object of the master list has the flag set, whatever its fd, and the next tick
  resets nothing.
\<close>

theorem reset_clears_gotReset:
  "(x_format_obj_string x (x_MAX_LINE x) (Some ((heap s r)\<lparr>gotReset := False\<rparr>)) cmd = None \<longrightarrow>
      (\<exists>s'. reset_console x e r cmd s = Inr s' \<and> \<not> gotReset (heap s' r)
          \<and> timers (tp s') = timers (tp s)
          \<and> trace s' = trace s @ [Log_msg LOG_NOTICE
                ''Unable to reset console [%s]: command too long'' [S (name (heap s r))]]))
   \<and> (x_format_obj_string x (x_MAX_LINE x) (Some ((heap s r)\<lparr>gotReset := False\<rparr>)) cmd \<noteq> None
        \<and> e_fork e r < 0 \<longrightarrow>
      (\<exists>s'. reset_console x e r cmd s = Inr s' \<and> \<not> gotReset (heap s' r)
          \<and> timers (tp s') = timers (tp s)
          \<and> trace s' = trace s @ [Sys_fork (e_fork e r), Log_msg LOG_NOTICE
                ''Unable to reset console [%s]: %s'' [S (name (heap s r)), Errno]]))
   \<and> (\<forall>s'. reset_console x e r cmd s = Inr s' \<longrightarrow> \<not> gotReset (heap s' r))
   \<and> (\<forall>s'. mux_io_set_fds x e c s = Inr s' \<longrightarrow>
         (\<forall>r\<in>set (objs c). \<not> gotReset (heap s' r))
         \<and> (\<exists>s''. mux_io_set_fds x e c s' = Inr s'' \<and> trace s'' = trace s'
                \<and> timers (tp s'') = timers (tp s')))"
proof (intro conjI allI impI)
  assume "x_format_obj_string x (x_MAX_LINE x) (Some ((heap s r)\<lparr>gotReset := False\<rparr>)) cmd = None"
  then show "\<exists>s'. reset_console x e r cmd s = Inr s' \<and> \<not> gotReset (heap s' r)
          \<and> timers (tp s') = timers (tp s)
          \<and> trace s' = trace s @ [Log_msg LOG_NOTICE
                ''Unable to reset console [%s]: command too long'' [S (name (heap s r))]]"
    by (simp add: reset_console_def log_msg_def)
next
  assume "x_format_obj_string x (x_MAX_LINE x) (Some ((heap s r)\<lparr>gotReset := False\<rparr>)) cmd \<noteq> None
        \<and> e_fork e r < 0"
  then show "\<exists>s'. reset_console x e r cmd s = Inr s' \<and> \<not> gotReset (heap s' r)
          \<and> timers (tp s') = timers (tp s)
          \<and> trace s' = trace s @ [Sys_fork (e_fork e r), Log_msg LOG_NOTICE
                ''Unable to reset console [%s]: %s'' [S (name (heap s r)), Errno]]"
    by (auto simp: reset_console_def log_msg_def emit_def Let_def)
next
  fix s' assume "reset_console x e r cmd s = Inr s'"
  from reset_console_Inr(3) [OF this] show "\<not> gotReset (heap s' r)" by simp
next
  fix s' assume a: "mux_io_set_fds x e c s = Inr s'"
  have h: "heap s' r = (heap s r)\<lparr>gotReset := (gotReset (heap s r) \<and> r \<notin> set (objs c))\<rparr>" for r
    using mux_set_objs_heap [OF a [unfolded mux_io_set_fds_def]] by simp
  show "\<forall>r\<in>set (objs c). \<not> gotReset (heap s' r)"
    by (simp add: h)
  then have "\<forall>r\<in>set (objs c).
      \<not> gotReset (heap (s'\<lparr>tp := tpoll_set (tpoll_zero_fds (tp s')) (ld c) {POLLIN}\<rparr>) r)"
    by simp
  from mux_set_objs_no_reset [OF this, of x e "resetCmd c"]
  show "\<exists>s''. mux_io_set_fds x e c s' = Inr s'' \<and> trace s'' = trace s'
                \<and> timers (tp s'') = timers (tp s')"
    by (auto simp: mux_io_set_fds_def tpoll_set_def tpoll_zero_fds_def)
qed

theorem reset_clears_gotReset_witness:
  "x_format_obj_string ex_extern (x_MAX_LINE ex_extern)
       (Some ((heap ex_sys 0)\<lparr>gotReset := False\<rparr>)) (Some (replicate 1024 (CHR ''a''))) = None \<and>
   (\<exists>s'. reset_console ex_extern ex_env 0 (Some (replicate 1024 (CHR ''a''))) ex_sys = Inr s'
       \<and> \<not> gotReset (heap s' 0) \<and> timers (tp s') = [])
   \<and> e_fork ex_env 4 < 0 \<and> fd (heap ex_sys 4) = - 1 \<and> gotReset (heap ex_sys 4)
   \<and> (\<exists>s'. reset_console ex_extern ex_env 4 (resetCmd ex_conf) ex_sys = Inr s'
       \<and> \<not> gotReset (heap s' 4) \<and> timers (tp s') = [])
   \<and> (\<exists>s'. mux_io_set_fds ex_extern ex_env ex_conf ex_sys = Inr s'
       \<and> \<not> gotReset (heap s' 0) \<and> \<not> gotReset (heap s' 4)
       \<and> (\<exists>s''. mux_io_set_fds ex_extern ex_env ex_conf s' = Inr s'' \<and> trace s'' = trace s'))"
proof -
  have f0: "x_format_obj_string ex_extern (x_MAX_LINE ex_extern)
       (Some ((heap ex_sys 0)\<lparr>gotReset := False\<rparr>)) (Some (replicate 1024 (CHR ''a''))) = None"
    by (simp add: ex_extern_def)
  have f4: "x_format_obj_string ex_extern (x_MAX_LINE ex_extern)
       (Some ((heap ex_sys 4)\<lparr>gotReset := False\<rparr>)) (resetCmd ex_conf) \<noteq> None
       \<and> e_fork ex_env 4 < 0"
    by (simp add: ex_extern_def ex_conf_def ex_env_def)
  have t0: "timers (tp ex_sys) = []" by (simp add: ex_sys_def ex_tpoll_def)
  obtain s' where s': "mux_io_set_fds ex_extern ex_env ex_conf ex_sys = Inr s'"
    by (simp add: ex_defs run_defs)
  have m: "0 \<in> set (objs ex_conf)" "4 \<in> set (objs ex_conf)" by (simp_all add: ex_conf_def)
  from reset_clears_gotReset [of ex_extern ex_sys 0 "Some (replicate 1024 (CHR ''a''))" ex_env
      ex_conf] f0 t0
  have a: "\<exists>s'. reset_console ex_extern ex_env 0 (Some (replicate 1024 (CHR ''a''))) ex_sys = Inr s'
       \<and> \<not> gotReset (heap s' 0) \<and> timers (tp s') = []"
    by auto
  from reset_clears_gotReset [of ex_extern ex_sys 4 "resetCmd ex_conf" ex_env ex_conf] f4 t0
  have b: "\<exists>s'. reset_console ex_extern ex_env 4 (resetCmd ex_conf) ex_sys = Inr s'
       \<and> \<not> gotReset (heap s' 4) \<and> timers (tp s') = []"
    by auto
  from reset_clears_gotReset [of ex_extern ex_sys 4 "resetCmd ex_conf" ex_env ex_conf] s' m
  have c: "\<not> gotReset (heap s' 0) \<and> \<not> gotReset (heap s' 4)
       \<and> (\<exists>s''. mux_io_set_fds ex_extern ex_env ex_conf s' = Inr s'' \<and> trace s'' = trace s')"
    by blast
  have d: "e_fork ex_env 4 < 0 \<and> fd (heap ex_sys 4) = - 1 \<and> gotReset (heap ex_sys 4)"
    by (simp add: ex_defs)
  from f0 a b c d s' show ?thesis by blast
qed

section \<open>The timestamp timer\<close>

lemma c_div_nonneg: "0 \<le> a \<Longrightarrow> 0 < b \<Longrightarrow> c_div a b = a div b"
  by (simp add: c_div_def)

lemma mins_of_day: "((l::int) mod 86400) div 60 = (l div 60) mod 1440"
proof -
  have "l mod (60 * 1440) = 60 * (l div 60 mod 1440) + l mod 60"
    by (rule zmod_zmult2_eq) simp
  then show ?thesis by simp
qed

lemma hm_minutes: "((l::int) div 3600) mod 24 * 60 + (l div 60) mod 60 = (l mod 86400) div 60"
proof -
  have a: "l div 3600 = l div 60 div 60"
    using zdiv_zmult2_eq [of 60 l 60] by simp
  have "(l div 60) mod (60 * 24) = 60 * (l div 60 div 60 mod 24) + (l div 60) mod 60"
    by (rule zmod_zmult2_eq) simp
  then show ?thesis by (simp add: a mins_of_day)
qed

lemma split_time:
  "(l::int) div 86400 * 86400 + (l div 3600) mod 24 * 3600 + (l div 60) mod 60 * 60 = l - l mod 60"
proof -
  have d: "l div 86400 = l div 60 div 1440"
    using zdiv_zmult2_eq [of 1440 l 60] by simp
  have a: "(l div 3600) mod 24 * 3600 + (l div 60) mod 60 * 60 = ((l div 60) mod 1440) * 60"
    using hm_minutes [of l] by (simp add: mins_of_day)
  have b: "l div 60 div 1440 * 1440 + (l div 60) mod 1440 = l div 60"
    by simp
  have c: "l div 60 * 60 = l - l mod 60"
    by (simp add: algebra_simps minus_mod_eq_mult_div)
  from a b c show ?thesis unfolding d by linarith
qed

lemma first_deadline_next:
  assumes m: "0 < m"
  shows "time_now clk < slot_time clk m (slots_completed clk m + 1)"
    and "slot_time clk m (slots_completed clk m + 1) \<le> time_now clk + m * 60"
    and "(slot_time clk m (slots_completed clk m + 1) + utc_offset clk) mod 60 = 0"
proof -
  define l where "l = time_now clk + utc_offset clk"
  define q where "q = l div 86400"
  define r where "r = l mod 86400"
  define mins where "mins = r div 60"
  define P where "P = (mins div m) * m"
  have now: "time_now clk = q * 86400 + r - utc_offset clk"
    by (simp add: l_def q_def r_def)
  have D: "slot_time clk m (slots_completed clk m + 1) = q * 86400 - utc_offset clk + P * 60 + m * 60"
    by (simp add: slot_time_def slots_completed_def start_of_day_def minute_of_day_def l_def
        mins_def P_def q_def r_def algebra_simps)
  have eq: "P + mins mod m = mins"
    by (simp add: P_def)
  have p1: "P \<le> mins"
    using eq pos_mod_sign [OF m, of mins] by linarith
  have p2: "mins < P + m"
    using eq pos_mod_bound [OF m, of mins] by linarith
  have eq2: "mins * 60 + r mod 60 = r"
    by (simp add: mins_def)
  have b1: "0 \<le> r mod 60" and b2: "r mod 60 < 60"
    by simp_all
  define e where "e = r mod 60"
  from p2 have "mins + 1 \<le> P + m" by simp
  then have "(mins + 1) * 60 \<le> (P + m) * 60" by simp
  then have p3: "mins * 60 + 60 \<le> P * 60 + m * 60" by (simp add: algebra_simps)
  from p1 have p4: "P * 60 \<le> mins * 60" by simp
  note f = p3 p4 eq2 [folded e_def] b1 [folded e_def] b2 [folded e_def]
  from f show "time_now clk < slot_time clk m (slots_completed clk m + 1)"
    unfolding now D by linarith
  from f show "slot_time clk m (slots_completed clk m + 1) \<le> time_now clk + m * 60"
    unfolding now D by linarith
  have "slot_time clk m (slots_completed clk m + 1) + utc_offset clk = (q * 1440 + (P + m)) * 60"
    unfolding D by (simp add: algebra_simps)
  then show "(slot_time clk m (slots_completed clk m + 1) + utc_offset clk) mod 60 = 0" by simp
qed

lemma localtime_fields:
  "tm_min (localtime off t) = ((t + off) div 60) mod 60"
  "tm_hour (localtime off t) = ((t + off) div 3600) mod 24"
  by (simp_all add: localtime_def Let_def)

lemma mktime_first:
  "mktime off ((localtime off t)\<lparr>tm_min := a, tm_hour := 0, tm_sec := 0\<rparr>)
     = (t + off) div 86400 * 86400 - off + a * 60"
proof -
  have "mktime off ((localtime off t)\<lparr>tm_min := a, tm_hour := 0, tm_sec := 0\<rparr>)
          = ((t + off) div 86400 * 24 * 60 + a) * 60 - off"
    by (simp add: mktime_def localtime_def Let_def)
  also have "\<dots> = (t + off) div 86400 * 86400 - off + a * 60"
    by (simp add: distrib_right)
  finally show ?thesis .
qed

lemma mktime_next:
  "mktime off ((localtime off t)\<lparr>tm_min := tm_min (localtime off t) + m, tm_sec := 0\<rparr>)
     = t - (t + off) mod 60 + m * 60"
proof -
  define l where "l = t + off"
  have "mktime off ((localtime off t)\<lparr>tm_min := tm_min (localtime off t) + m, tm_sec := 0\<rparr>)
          = ((l div 86400 * 24 + (l div 3600) mod 24) * 60 + ((l div 60) mod 60 + m)) * 60 - off"
    by (simp add: mktime_def localtime_def Let_def l_def)
  also have "\<dots> = (l div 86400 * 86400 + (l div 3600) mod 24 * 3600 + (l div 60) mod 60 * 60)
                    + m * 60 - off"
    by (simp add: distrib_right)
  also have "\<dots> = l - l mod 60 + m * 60 - off"
    by (simp only: split_time)
  finally show ?thesis by (simp add: l_def)
qed

lemma schedule_first:
  assumes z: "tStampNext c = 0" and m: "0 < tStampMinutes c" and n: "0 \<le> time_now clk"
  shows "schedule_timestamp clk c s =
           Inr (c\<lparr>tStampNext := slot_time clk (tStampMinutes c) (slots_completed clk (tStampMinutes c) + 1)\<rparr>,
                s\<lparr>tp := (tp s)\<lparr>timers := timers (tp s)
                       @ [(At_time (slot_time clk (tStampMinutes c) (slots_completed clk (tStampMinutes c) + 1)), Cb_timestamp_logfiles)]\<rparr>\<rparr>)"
proof -
  define tm0 where "tm0 = localtime (utc_offset clk) (time_now clk)"
  define k where "k = minute_of_day clk div tStampMinutes c"
  have mins: "tm_hour tm0 * 60 + tm_min tm0 = minute_of_day clk"
    by (simp add: tm0_def localtime_fields hm_minutes minute_of_day_def)
  have nonneg: "0 \<le> minute_of_day clk"
    by (simp add: minute_of_day_def)
  have cd: "c_div (tm_hour tm0 * 60 + tm_min tm0) (tStampMinutes c) = k"
    using nonneg m by (simp add: mins c_div_nonneg k_def)
  have mk: "mktime (utc_offset clk) (tm0\<lparr>tm_min := (k + 1) * tStampMinutes c, tm_hour := 0,
              tm_sec := 0\<rparr>) = slot_time clk (tStampMinutes c) (slots_completed clk (tStampMinutes c) + 1)"
    unfolding tm0_def mktime_first
    by (simp add: slot_time_def slots_completed_def start_of_day_def k_def)
  have ne: "slot_time clk (tStampMinutes c) (slots_completed clk (tStampMinutes c) + 1) \<noteq> - 1"
    using first_deadline_next(1) [OF m, of clk] n by linarith
  have g: "get_localtime clk (tStampNext c) = (time_now clk, tm0)"
    by (simp add: get_localtime_def z tm0_def Let_def)
  show ?thesis
    unfolding schedule_timestamp_def g
    by (simp add: z cd mk ne Let_def tpoll_timeout_absolute_def)
qed

lemma schedule_next:
  assumes p: "0 < tStampNext c" and w: "(tStampNext c + utc_offset clk) mod 60 = 0"
    and m: "0 < tStampMinutes c" and b: "tStampMinutes c \<le> INT_MAX - 59"
  shows "schedule_timestamp clk c s =
           Inr (c\<lparr>tStampNext := tStampNext c + tStampMinutes c * 60\<rparr>,
                s\<lparr>tp := (tp s)\<lparr>timers := timers (tp s)
                       @ [(At_time (tStampNext c + tStampMinutes c * 60), Cb_timestamp_logfiles)]\<rparr>\<rparr>)"
proof -
  define tm0 where "tm0 = localtime (utc_offset clk) (tStampNext c)"
  have "tm_min tm0 < 60"
    by (simp add: tm0_def localtime_fields)
  with b have ov: "\<not> tm_min tm0 + tStampMinutes c > INT_MAX"
    by linarith
  have mk: "mktime (utc_offset clk) (tm0\<lparr>tm_min := tm_min tm0 + tStampMinutes c, tm_sec := 0\<rparr>)
              = tStampNext c + tStampMinutes c * 60"
    unfolding tm0_def mktime_next by (simp add: w)
  have ne: "tStampNext c + tStampMinutes c * 60 \<noteq> - 1"
    using p m by linarith
  have nz: "tStampNext c \<noteq> 0" using p by simp
  have g: "get_localtime clk (tStampNext c) = (tStampNext c, tm0)"
    by (simp add: get_localtime_def nz tm0_def Let_def)
  show ?thesis
    unfolding schedule_timestamp_def g
    by (simp add: nz ov mk ne Let_def tpoll_timeout_absolute_def)
qed


lemma upt_Suc_shift: "map f [0..<Suc n] = f 0 # map (\<lambda>j. f (Suc j)) [0..<n]"
  by (induction n) simp_all

lemma schedule_chain:
  assumes "0 < tStampNext c" and "(tStampNext c + off) mod 60 = 0"
    and "0 < tStampMinutes c" and "tStampMinutes c \<le> INT_MAX - 59"
    and "\<forall>k\<in>set clks. utc_offset k = off"
  shows "\<exists>c' s'. schedule_timestamps clks c s = Inr (c', s')
           \<and> tStampNext c' = tStampNext c + int (length clks) * (tStampMinutes c * 60)
           \<and> timers (tp s') = timers (tp s)
                @ map (\<lambda>j. (At_time (tStampNext c + (int j + 1) * (tStampMinutes c * 60)),
                             Cb_timestamp_logfiles)) [0..<length clks]"
  using assms
proof (induction clks arbitrary: c s)
  case Nil
  then show ?case by simp
next
  case (Cons clk clks)
  let ?m = "tStampMinutes c"
  let ?c1 = "c\<lparr>tStampNext := tStampNext c + ?m * 60\<rparr>"
  let ?s1 = "s\<lparr>tp := (tp s)\<lparr>timers := timers (tp s)
                @ [(At_time (tStampNext c + ?m * 60), Cb_timestamp_logfiles)]\<rparr>\<rparr>"
  from Cons.prems have o: "utc_offset clk = off" by simp
  have step: "schedule_timestamp clk c s = Inr (?c1, ?s1)"
    using Cons.prems(1-4) by (intro schedule_next) (simp_all add: o)
  have a: "0 < tStampNext ?c1" using Cons.prems(1,3) by simp
  have "tStampNext ?c1 + off = (tStampNext c + off) + ?m * 60" by simp
  then have b: "(tStampNext ?c1 + off) mod 60 = 0"
    using Cons.prems(2) by (simp only: mod_mult_self1)
  have c: "0 < tStampMinutes ?c1" "tStampMinutes ?c1 \<le> INT_MAX - 59"
    using Cons.prems(3,4) by simp_all
  have d: "\<forall>k\<in>set clks. utc_offset k = off" using Cons.prems(5) by simp
  from Cons.IH [OF a b c d, of ?s1] obtain c' s' where
    r: "schedule_timestamps clks ?c1 ?s1 = Inr (c', s')"
    and t: "tStampNext c' = tStampNext ?c1 + int (length clks) * (tStampMinutes ?c1 * 60)"
    and u: "timers (tp s') = timers (tp ?s1)
                @ map (\<lambda>j. (At_time (tStampNext ?c1 + (int j + 1) * (tStampMinutes ?c1 * 60)),
                             Cb_timestamp_logfiles)) [0..<length clks]"
    by blast
  have "schedule_timestamps (clk # clks) c s = Inr (c', s')"
    by (simp add: step r)
  moreover have "tStampNext c' = tStampNext c + int (length (clk # clks)) * (?m * 60)"
    using t by (simp add: algebra_simps)
  moreover have "timers (tp s') = timers (tp s)
                @ map (\<lambda>j. (At_time (tStampNext c + (int j + 1) * (?m * 60)),
                             Cb_timestamp_logfiles)) [0..<length (clk # clks)]"
    using u by (simp add: upt_Suc_shift algebra_simps del: upt_Suc)
  ultimately show ?case by blast
qed

text \<open>
  Claim C4. With timestamps enabled (m > 0) and no deadline stored yet, the first call
  of \<open>schedule_timestamp\<close> sets the deadline to the next instant after the current
  time that is a whole multiple of m minutes past local midnight, at most m minutes
  ahead. Every later call adds m minutes to the stored deadline, whatever the clock
  reads when it is made: after the first call and one call per reading in \<open>clks\<close>
  the deadline is local midnight plus k * m minutes, k counting the multiples of m
  minutes since that midnight, and the timers set are at these instants in turn. (m is
  at most \<open>INT_MAX - 59\<close>, so that the sum of minutes is an \<^verbatim>\<open>int\<close>.)
\<close>

theorem timestamp_deadlines:
  assumes "tStampNext c = 0" and "0 < tStampMinutes c" and "tStampMinutes c \<le> INT_MAX - 59"
    and "0 \<le> time_now clk" and "\<forall>k\<in>set clks. utc_offset k = utc_offset clk"
  shows "\<exists>c' s'. schedule_timestamps (clk # clks) c s = Inr (c', s')
           \<and> tStampNext c' =
               slot_time clk (tStampMinutes c)
                 (slots_completed clk (tStampMinutes c) + 1 + int (length clks))
           \<and> timers (tp s') = timers (tp s)
                @ map (\<lambda>j. (At_time (slot_time clk (tStampMinutes c)
                                        (slots_completed clk (tStampMinutes c) + 1 + int j)),
                             Cb_timestamp_logfiles)) [0..<Suc (length clks)]
           \<and> time_now clk < slot_time clk (tStampMinutes c) (slots_completed clk (tStampMinutes c) + 1)
           \<and> slot_time clk (tStampMinutes c) (slots_completed clk (tStampMinutes c) + 1)
               \<le> time_now clk + tStampMinutes c * 60"
proof -
  let ?m = "tStampMinutes c"
  let ?D = "slot_time clk ?m (slots_completed clk ?m + 1)"
  let ?c1 = "c\<lparr>tStampNext := ?D\<rparr>"
  let ?s1 = "s\<lparr>tp := (tp s)\<lparr>timers := timers (tp s) @ [(At_time ?D, Cb_timestamp_logfiles)]\<rparr>\<rparr>"
  note nx = first_deadline_next [OF assms(2), of clk]
  have step: "schedule_timestamp clk c s = Inr (?c1, ?s1)"
    by (rule schedule_first [OF assms(1,2,4)])
  have a: "0 < tStampNext ?c1" using nx(1) assms(4) by simp
  have b: "(tStampNext ?c1 + utc_offset clk) mod 60 = 0" using nx(3) by simp
  have c: "0 < tStampMinutes ?c1" "tStampMinutes ?c1 \<le> INT_MAX - 59"
    using assms(2,3) by simp_all
  from schedule_chain [OF a b c assms(5), of ?s1] obtain c' s' where
    r: "schedule_timestamps clks ?c1 ?s1 = Inr (c', s')"
    and t: "tStampNext c' = ?D + int (length clks) * (?m * 60)"
    and u: "timers (tp s') = timers (tp ?s1)
                @ map (\<lambda>j. (At_time (?D + (int j + 1) * (?m * 60)), Cb_timestamp_logfiles))
                    [0..<length clks]"
    by auto
  have "schedule_timestamps (clk # clks) c s = Inr (c', s')"
    by (simp add: step r)
  moreover have "tStampNext c' = slot_time clk ?m (slots_completed clk ?m + 1 + int (length clks))"
    using t by (simp add: slot_time_def algebra_simps)
  moreover have "timers (tp s') = timers (tp s)
                @ map (\<lambda>j. (At_time (slot_time clk ?m (slots_completed clk ?m + 1 + int j)),
                             Cb_timestamp_logfiles)) [0..<Suc (length clks)]"
    using u by (simp add: upt_Suc_shift slot_time_def algebra_simps del: upt_Suc)
  ultimately show ?thesis using nx(1,2) by blast
qed

theorem timestamp_deadlines_witness:
  "tStampNext ex_conf = 0 \<and> 0 < tStampMinutes ex_conf \<and> tStampMinutes ex_conf \<le> INT_MAX - 59
   \<and> 0 \<le> time_now ex_clock
   \<and> list_all (\<lambda>k. utc_offset k = utc_offset ex_clock) [ex_clock2, ex_clock3]
   \<and> (\<exists>c' s'. schedule_timestamps [ex_clock, ex_clock2, ex_clock3] ex_conf ex_sys = Inr (c', s')
         \<and> tStampNext c' = 1728035100
         \<and> timers (tp s') = [(At_time 1728033300, Cb_timestamp_logfiles),
                              (At_time 1728034200, Cb_timestamp_logfiles),
                              (At_time 1728035100, Cb_timestamp_logfiles)])"
proof -
  have h: "tStampNext ex_conf = 0" "0 < tStampMinutes ex_conf"
    "tStampMinutes ex_conf \<le> INT_MAX - 59" "0 \<le> time_now ex_clock"
    "\<forall>k\<in>set [ex_clock2, ex_clock3]. utc_offset k = utc_offset ex_clock"
    by (simp_all add: ex_conf_def ex_clock_def ex_clock2_def ex_clock3_def INT_MAX_def)
  have v: "slot_time ex_clock (tStampMinutes ex_conf)
             (slots_completed ex_clock (tStampMinutes ex_conf) + 1 + j) = 1728033300 + j * 900" for j
    by (simp add: slot_time_def slots_completed_def start_of_day_def minute_of_day_def
        ex_clock_def ex_conf_def algebra_simps)
  from timestamp_deadlines [OF h, of ex_sys] obtain c' s' where
    r: "schedule_timestamps [ex_clock, ex_clock2, ex_clock3] ex_conf ex_sys = Inr (c', s')"
    and t: "tStampNext c' = slot_time ex_clock (tStampMinutes ex_conf)
              (slots_completed ex_clock (tStampMinutes ex_conf) + 1
                 + int (length [ex_clock2, ex_clock3]))"
    and u: "timers (tp s') = timers (tp ex_sys)
              @ map (\<lambda>j. (At_time (slot_time ex_clock (tStampMinutes ex_conf)
                                      (slots_completed ex_clock (tStampMinutes ex_conf) + 1 + int j)),
                           Cb_timestamp_logfiles)) [0..<Suc (length [ex_clock2, ex_clock3])]"
    by blast
  have "tStampNext c' = 1728035100"
    unfolding t v by simp
  moreover have "timers (tp s') = [(At_time 1728033300, Cb_timestamp_logfiles),
                              (At_time 1728034200, Cb_timestamp_logfiles),
                              (At_time 1728035100, Cb_timestamp_logfiles)]"
    unfolding u v by (simp add: ex_sys_def ex_tpoll_def)
  ultimately show ?thesis using h r by simp
qed

section \<open>The watchdog of a reset command\<close>

text \<open>
  Claim C6. When a reset command is spawned (the expansion fits, fork returns the
  child's pid, the timer's argument is allocated), \<open>reset_console\<close> makes the child a
  process group leader and sets one timer of \<open>RESET_CMD_TIMEOUT\<close> seconds (given in
  milliseconds) whose callback is \<open>kill_console_reset\<close> for that pid. When the
  callback runs it probes the pid with signal 0: if the probe succeeds, SIGKILL is sent
  to the process group (the negated pid), with a notice when that succeeds; if the
  probe fails, the probe is the only call and no signal is sent. The callback changes
  neither the objects nor the timed poll.
\<close>

theorem reset_watchdog:
  "(x_format_obj_string x (x_MAX_LINE x) (Some ((heap s r)\<lparr>gotReset := False\<rparr>)) cmd \<noteq> None
      \<and> 0 < e_fork e r \<and> e_malloc e r \<longrightarrow>
      (\<exists>s'. reset_console x e r cmd s = Inr s'
         \<and> timers (tp s') = timers (tp s)
              @ [(After_ms (x_RESET_CMD_TIMEOUT x * 1000), Cb_kill_console_reset (e_fork e r))]
         \<and> trace s' = trace s @ [Sys_fork (e_fork e r), Sys_setpgid (e_fork e r) 0]))
   \<and> (0 \<le> e_kill e pid 0 \<longrightarrow>
        trace (kill_console_reset x e pid s) =
          trace s @ [Sys_kill pid 0, Sys_kill (- pid) SIGKILL]
            @ (if e_kill e (- pid) SIGKILL = 0
               then [Log_msg LOG_NOTICE ''ResetCmd process pid=%d exceeded %ds time limit''
                       [I pid, I (x_RESET_CMD_TIMEOUT x)]]
               else []))
   \<and> (e_kill e pid 0 < 0 \<longrightarrow>
        trace (kill_console_reset x e pid s) = trace s @ [Sys_kill pid 0])
   \<and> heap (kill_console_reset x e pid s) = heap s
   \<and> tp (kill_console_reset x e pid s) = tp s"
  by (auto simp: reset_console_def kill_console_reset_def Let_def emit_def log_msg_def
      tpoll_timeout_relative_def)

theorem reset_watchdog_witness:
  "x_format_obj_string ex_extern (x_MAX_LINE ex_extern)
       (Some ((heap ex_sys 0)\<lparr>gotReset := False\<rparr>)) (resetCmd ex_conf) \<noteq> None
   \<and> 0 < e_fork ex_env 0 \<and> e_malloc ex_env 0
   \<and> (\<exists>s'. reset_console ex_extern ex_env 0 (resetCmd ex_conf) ex_sys = Inr s'
         \<and> timers (tp s') = [(After_ms 60000, Cb_kill_console_reset 100)]
         \<and> trace s' = [Sys_fork 100, Sys_setpgid 100 0])
   \<and> 0 \<le> e_kill ex_env 100 0
   \<and> trace (kill_console_reset ex_extern ex_env 100 ex_sys) =
        [Sys_kill 100 0, Sys_kill (- 100) SIGKILL,
         Log_msg LOG_NOTICE ''ResetCmd process pid=%d exceeded %ds time limit'' [I 100, I 60]]
   \<and> e_kill ex_env 200 0 < 0
   \<and> trace (kill_console_reset ex_extern ex_env 200 ex_sys) = [Sys_kill 200 0]"
proof -
  have a: "x_format_obj_string ex_extern (x_MAX_LINE ex_extern)
       (Some ((heap ex_sys 0)\<lparr>gotReset := False\<rparr>)) (resetCmd ex_conf) \<noteq> None
      \<and> 0 < e_fork ex_env 0 \<and> e_malloc ex_env 0"
    by (simp add: ex_extern_def ex_conf_def ex_env_def)
  have b: "0 \<le> e_kill ex_env 100 0" "e_kill ex_env (- 100) SIGKILL = 0" "e_kill ex_env 200 0 < 0"
    by (simp_all add: ex_env_def)
  have c: "timers (tp ex_sys) = []" "trace ex_sys = []" "x_RESET_CMD_TIMEOUT ex_extern = 60"
    "e_fork ex_env 0 = 100"
    by (simp_all add: ex_sys_def ex_tpoll_def ex_extern_def ex_env_def)
  from reset_watchdog [of ex_extern ex_sys 0 "resetCmd ex_conf" ex_env 100] a b c
  have "(\<exists>s'. reset_console ex_extern ex_env 0 (resetCmd ex_conf) ex_sys = Inr s'
         \<and> timers (tp s') = [(After_ms 60000, Cb_kill_console_reset 100)]
         \<and> trace s' = [Sys_fork 100, Sys_setpgid 100 0])
     \<and> trace (kill_console_reset ex_extern ex_env 100 ex_sys) =
        [Sys_kill 100 0, Sys_kill (- 100) SIGKILL,
         Log_msg LOG_NOTICE ''ResetCmd process pid=%d exceeded %ds time limit'' [I 100, I 60]]"
    by simp
  moreover from reset_watchdog [of ex_extern ex_sys 0 "resetCmd ex_conf" ex_env 200] b c
  have "trace (kill_console_reset ex_extern ex_env 200 ex_sys) = [Sys_kill 200 0]"
    by simp
  ultimately show ?thesis using a b by simp
qed

section \<open>Timestamping the logfiles\<close>

lemma timestamp_line_cases:
  "timestamp_line x nm now =
     (if length (timestamp_text x nm now) < x_MAX_LINE x - 3 then timestamp_text x nm now
      else take (x_MAX_LINE x - 3) (timestamp_text x nm now) @ CRLF)"
  by (auto simp: timestamp_line_def Let_def min_def)

lemma timestamp_objs_run:
  assumes fr: "\<forall>r l. keeps_identity (x_write_obj_data x r l True)"
  shows "fst (timestamp_objs x now rs g s) = (g \<or> (\<exists>r\<in>set rs. is_logfile_obj (heap s r)))
       \<and> trace (snd (timestamp_objs x now rs g s)) =
           trace s @ map (\<lambda>r. Write_obj_data r
                            (timestamp_line x (name (heap s (aux_logfile_console (heap s r)))) now))
                       (filter (\<lambda>r. is_logfile_obj (heap s r)) rs)
       \<and> heap (snd (timestamp_objs x now rs g s)) =
           foldl (\<lambda>h r. x_write_obj_data x r
                            (timestamp_line x (name (heap s (aux_logfile_console (heap s r)))) now)
                            True h)
             (heap s) (filter (\<lambda>r. is_logfile_obj (heap s r)) rs)
       \<and> tp (snd (timestamp_objs x now rs g s)) = tp s"
proof (induction rs arbitrary: g s)
  case Nil
  then show ?case by simp
next
  case (Cons a rs)
  show ?case
  proof (cases "is_logfile_obj (heap s a)")
    case False
    with Cons.IH [of g s] show ?thesis by simp
  next
    case True
    define buf where "buf = timestamp_line x (name (heap s (aux_logfile_console (heap s a)))) now"
    define s1 where
      "s1 = (emit (Write_obj_data a buf) s)\<lparr>heap := x_write_obj_data x a buf True (heap s)\<rparr>"
    from fr have k: "keeps_identity (x_write_obj_data x a buf True)" by blast
    have id: "otype (heap s1 r) = otype (heap s r)" "name (heap s1 r) = name (heap s r)"
      "aux_logfile_console (heap s1 r) = aux_logfile_console (heap s r)" for r
      using k by (simp_all add: s1_def keeps_identity_def)
    have lf: "is_logfile_obj (heap s1 r) = is_logfile_obj (heap s r)" for r
      by (simp add: is_logfile_obj_def id)
    have st: "timestamp_objs x now (a # rs) g s = timestamp_objs x now rs True s1"
      using True by (simp add: s1_def buf_def Let_def)
    have s1': "trace s1 = trace s @ [Write_obj_data a buf]" "tp s1 = tp s"
      "heap s1 = x_write_obj_data x a buf True (heap s)"
      by (simp_all add: s1_def emit_def)
    note ih = Cons.IH [of True s1, unfolded lf id]
    from ih True show ?thesis
      unfolding st by (simp add: s1' buf_def)
  qed
qed


text \<open>
  Claim C5, amended. When the timestamp timer fires, \<open>write_obj_data\<close> is called
  exactly once for every logfile object of the master list, in list order, and for no
  other object. The text passed is prefix, "Console [", the name of the logfile's
  console, "] log at ", the long time string and suffix, with nothing added after the
  suffix; only when that text has \<open>MAX_LINE - 3\<close> or more characters is it cut to
  its first \<open>MAX_LINE - 3\<close> characters followed by CR LF. The next timestamp is
  scheduled exactly when the list holds a logfile object. (\<open>write_obj_data\<close> is
  taken to leave kinds, names and console links as they are.)
\<close>

theorem timestamp_logfiles_lines:
  assumes "\<forall>r l. keeps_identity (x_write_obj_data x r l True)"
  shows "trace (snd (timestamp_objs x (long_time_string clk) (objs c) False s)) =
           trace s @ map (\<lambda>r. Write_obj_data r
                            (timestamp_line x (name (heap s (aux_logfile_console (heap s r))))
                               (long_time_string clk)))
                       (filter (\<lambda>r. is_logfile_obj (heap s r)) (objs c))
       \<and> heap (snd (timestamp_objs x (long_time_string clk) (objs c) False s)) =
           foldl (\<lambda>h r. x_write_obj_data x r
                            (timestamp_line x (name (heap s (aux_logfile_console (heap s r))))
                               (long_time_string clk)) True h)
             (heap s) (filter (\<lambda>r. is_logfile_obj (heap s r)) (objs c))
       \<and> timestamp_logfiles x clk c s =
           (if filter (\<lambda>r. is_logfile_obj (heap s r)) (objs c) \<noteq> []
            then schedule_timestamp clk c (snd (timestamp_objs x (long_time_string clk) (objs c) False s))
            else Inr (c, snd (timestamp_objs x (long_time_string clk) (objs c) False s)))
       \<and> timestamp_line x nm now =
           (if length (timestamp_text x nm now) < x_MAX_LINE x - 3 then timestamp_text x nm now
            else take (x_MAX_LINE x - 3) (timestamp_text x nm now) @ CRLF)"
proof -
  note run = timestamp_objs_run [OF assms, of "long_time_string clk" "objs c" False s]
  have g: "fst (timestamp_objs x (long_time_string clk) (objs c) False s) =
             (filter (\<lambda>r. is_logfile_obj (heap s r)) (objs c) \<noteq> [])"
    using run by (simp add: filter_empty_conv)
  have "timestamp_logfiles x clk c s =
           (if filter (\<lambda>r. is_logfile_obj (heap s r)) (objs c) \<noteq> []
            then schedule_timestamp clk c (snd (timestamp_objs x (long_time_string clk) (objs c) False s))
            else Inr (c, snd (timestamp_objs x (long_time_string clk) (objs c) False s)))"
    unfolding timestamp_logfiles_def g [symmetric] by (simp add: split_beta)
  with run timestamp_line_cases [of x nm now] show ?thesis by simp
qed

lemma ex_keeps_identity: "keeps_identity (x_write_obj_data ex_extern r l True)"
  by (simp add: keeps_identity_def ex_extern_def)

lemma ex_logfiles:
  "filter (\<lambda>r. is_logfile_obj (heap ex_sys r)) (objs ex_conf) = [1]"
  "filter (\<lambda>r. is_logfile_obj (heap ex_long_sys r)) (objs ex_conf) = [1]"
  by (simp_all add: ex_conf_def ex_long_sys_def ex_sys_def ex_heap_def ex_long_heap_def ex_obj_def
      is_logfile_obj_def)

lemma ex_console_names:
  "name (heap ex_sys (aux_logfile_console (heap ex_sys (Suc 0)))) = ''c1''"
  "name (heap ex_long_sys (aux_logfile_console (heap ex_long_sys (Suc 0))))
     = replicate 1000 (CHR ''n'')"
  by (simp_all add: ex_long_sys_def ex_sys_def ex_heap_def ex_long_heap_def ex_obj_def)

lemma ex_text_lengths:
  "length (timestamp_text ex_extern ''c1'' (long_time_string ex_clock)) = 57"
  "length (timestamp_text ex_extern (replicate 1000 (CHR ''n'')) (long_time_string ex_clock)) = 1055"
  by (simp_all add: timestamp_text_def ex_extern_def ex_clock_def)

theorem timestamp_logfiles_lines_witness:
  "(\<forall>r l. keeps_identity (x_write_obj_data ex_extern r l True))
   \<and> trace (snd (timestamp_objs ex_extern (long_time_string ex_clock) (objs ex_conf) False ex_sys)) =
       [Write_obj_data 1 (timestamp_text ex_extern ''c1'' (long_time_string ex_clock))]
   \<and> timestamp_logfiles ex_extern ex_clock ex_conf ex_sys =
       schedule_timestamp ex_clock ex_conf
         (snd (timestamp_objs ex_extern (long_time_string ex_clock) (objs ex_conf) False ex_sys))"
proof -
  have h: "\<forall>r l. keeps_identity (x_write_obj_data ex_extern r l True)"
    by (simp add: ex_keeps_identity)
  have t: "trace ex_sys = []" "x_MAX_LINE ex_extern = 1024"
    by (simp_all add: ex_sys_def ex_extern_def)
  from timestamp_logfiles_lines [OF h, of ex_clock ex_conf ex_sys "''c1''" "long_time_string ex_clock"]
  show ?thesis
    by (simp add: h t ex_logfiles ex_console_names ex_text_lengths)
qed

text \<open>
  Claim C5 as stated fails. For the example's logfile the text enqueued is the
  formatted text and nothing more: no CR LF follows the suffix. For a console name of
  1000 characters the text enqueued has 1023 characters, while the formatted text
  has 1055: it is not of the form prefix ... suffix.
\<close>

theorem timestamp_line_counterexample:
  "trace (snd (timestamp_objs ex_extern (long_time_string ex_clock) (objs ex_conf) False ex_sys)) =
     [Write_obj_data 1 (timestamp_text ex_extern ''c1'' (long_time_string ex_clock))]
   \<and> timestamp_text ex_extern ''c1'' (long_time_string ex_clock)
       \<noteq> timestamp_text ex_extern ''c1'' (long_time_string ex_clock) @ CRLF
   \<and> trace (snd (timestamp_objs ex_extern (long_time_string ex_clock) (objs ex_conf) False
                   ex_long_sys)) =
     [Write_obj_data 1
        (take 1021 (timestamp_text ex_extern (replicate 1000 (CHR ''n'')) (long_time_string ex_clock))
         @ CRLF)]
   \<and> length (take 1021 (timestamp_text ex_extern (replicate 1000 (CHR ''n''))
                          (long_time_string ex_clock)) @ CRLF) = 1023
   \<and> length (timestamp_text ex_extern (replicate 1000 (CHR ''n'')) (long_time_string ex_clock)) = 1055"
proof -
  have h: "\<forall>r l. keeps_identity (x_write_obj_data ex_extern r l True)"
    by (simp add: ex_keeps_identity)
  have t: "trace ex_sys = []" "trace ex_long_sys = []"
    "x_MAX_LINE ex_extern = 1024"
    by (simp_all add: ex_long_sys_def ex_sys_def ex_extern_def)
  from timestamp_objs_run [OF h, of "long_time_string ex_clock" "objs ex_conf" False ex_sys]
  have a: "trace (snd (timestamp_objs ex_extern (long_time_string ex_clock) (objs ex_conf) False ex_sys)) =
     [Write_obj_data 1 (timestamp_text ex_extern ''c1'' (long_time_string ex_clock))]"
    by (simp add: t ex_logfiles ex_console_names timestamp_line_cases ex_text_lengths)
  from timestamp_objs_run [OF h, of "long_time_string ex_clock" "objs ex_conf" False
      ex_long_sys]
  have b: "trace (snd (timestamp_objs ex_extern (long_time_string ex_clock) (objs ex_conf) False
                   ex_long_sys)) =
     [Write_obj_data 1
        (take 1021 (timestamp_text ex_extern (replicate 1000 (CHR ''n'')) (long_time_string ex_clock))
         @ CRLF)]"
    by (simp add: t ex_logfiles ex_console_names timestamp_line_cases ex_text_lengths)
  have c: "length (take 1021 (timestamp_text ex_extern (replicate 1000 (CHR ''n''))
                          (long_time_string ex_clock)) @ CRLF) = 1023"
    by (simp add: ex_text_lengths CRLF_def)
  from a b c show ?thesis by (simp add: ex_text_lengths CRLF_def)
qed

section \<open>The limit on open files\<close>

lemma to_int_id: "0 \<le> v \<Longrightarrow> v \<le> INT_MAX \<Longrightarrow> to_int v = v"
  by (simp add: to_int_def INT_MAX_def)

lemma to_rlim_id: "0 \<le> v \<Longrightarrow> v \<le> INT_MAX \<Longrightarrow> to_rlim v = v"
  by (simp add: to_rlim_def INT_MAX_def)

text \<open>
  Within the range of \<^verbatim>\<open>int\<close> the conversions change nothing: with a hard limit and
  twice the number of objects up to \<open>INT_MAX\<close>, \<open>open_objs\<close> asks for the maximum of
  the two as soft and hard limit whenever the soft limit is below it, before it opens
  the first object; it logs the new limit when \<^verbatim>\<open>setrlimit\<close> succeeds, and logs an
  error and opens the objects all the same when it fails.
\<close>

lemma open_objs_in_int_range:
  assumes "e_getrlimit e = Some (rlim_cur, rlim_max)"
    and "0 \<le> rlim_max" and "rlim_max \<le> INT_MAX" and "2 * int (length (objs c)) \<le> INT_MAX"
  shows "open_objs x e c s =
           open_obj_list x (enableZeroLogs c) (objs c)
             (if rlim_cur < max rlim_max (2 * int (length (objs c))) then
                s\<lparr>trace := trace s @
                  [Sys_setrlimit (max rlim_max (2 * int (length (objs c))))
                                 (max rlim_max (2 * int (length (objs c)))),
                   if e_setrlimit e (max rlim_max (2 * int (length (objs c))))
                                    (max rlim_max (2 * int (length (objs c)))) < 0
                   then Log_msg LOG_ERR ''Unable to set the num open file limit to %d''
                          [I (max rlim_max (2 * int (length (objs c))))]
                   else Log_msg LOG_INFO ''Increased the num open file limit to %d''
                          [I (max rlim_max (2 * int (length (objs c))))]]\<rparr>
              else s)"
proof -
  define n where "n = max rlim_max (2 * int (length (objs c)))"
  have n: "0 \<le> n" "n \<le> INT_MAX"
    using assms(2-4) by (simp_all add: n_def)
  have c2: "to_int (int (length (objs c)) * 2) = 2 * int (length (objs c))"
    using assms(4) by (simp add: to_int_id mult.commute)
  have r2: "to_rlim (2 * int (length (objs c))) = 2 * int (length (objs c))"
    using assms(4) by (simp add: to_rlim_id)
  have nn: "to_int (max rlim_max (to_rlim (to_int (int (length (objs c)) * 2)))) = n"
    unfolding c2 r2 n_def [symmetric] by (rule to_int_id [OF n])
  have rn: "to_rlim n = n" by (rule to_rlim_id [OF n])
  show ?thesis
    unfolding n_def [symmetric]
    by (simp add: open_objs_def open_objs_limit_def assms(1) nn rn Let_def emit_def log_msg_def)
qed

text \<open>
  Claim C8 says that the soft limit is raised to the maximum of the hard limit and
  twice the number of objects whenever it is below that maximum. The code holds the
  maximum in \<^verbatim>\<open>int n\<close> (server.c 469, 476), which cuts a larger \<^verbatim>\<open>rlim_t\<close>. With
  four objects, a soft limit of 1024 and a hard limit of \<open>2 ^ 32\<close>, \<open>n\<close> is 0: no
  \<^verbatim>\<open>setrlimit\<close> is called and nothing is logged, although the soft limit is below
  the maximum, and the objects are opened under the old limit. With a soft limit of
  256 and an unlimited hard limit of \<open>2 ^ 63 - 1\<close>, \<open>n\<close> is -1: the limit asked for is
  \<open>2 ^ 64 - 1\<close>, not the maximum, and the message prints -1.
\<close>

theorem open_files_limit_truncated:
  "e_getrlimit ex_big_env = Some (1024, 4294967296)
   \<and> (1024::int) < max 4294967296 (2 * int (length (objs ex_start_conf)))
   \<and> open_objs_limit ex_big_env ex_start_conf ex_sys = Inr ex_sys
   \<and> open_objs ex_extern ex_big_env ex_start_conf ex_sys =
       open_obj_list ex_extern (enableZeroLogs ex_start_conf) (objs ex_start_conf) ex_sys
   \<and> e_getrlimit ex_unlimited_env = Some (256, 9223372036854775807)
   \<and> max 9223372036854775807 (2 * int (length (objs ex_start_conf))) = 9223372036854775807
   \<and> open_objs_limit ex_unlimited_env ex_start_conf ex_sys =
       Inr (ex_sys\<lparr>trace :=
              [Sys_setrlimit 18446744073709551615 18446744073709551615,
               Log_msg LOG_ERR ''Unable to set the num open file limit to %d'' [I (- 1)]]\<rparr>)"
proof -
  have n: "length (objs ex_start_conf) = 4"
    by (simp add: ex_start_conf_def ex_conf_def)
  have g: "e_getrlimit ex_big_env = Some (1024, 4294967296)"
    "e_getrlimit ex_unlimited_env = Some (256, 9223372036854775807)"
    "e_setrlimit ex_unlimited_env 18446744073709551615 18446744073709551615 = - 1"
    by (simp_all add: ex_big_env_def ex_unlimited_env_def ex_env_def)
  have t: "trace ex_sys = []" by (simp add: ex_sys_def)
  have a: "open_objs_limit ex_big_env ex_start_conf ex_sys = Inr ex_sys"
    by (simp add: open_objs_limit_def g n to_int_def to_rlim_def)
  have b: "open_objs ex_extern ex_big_env ex_start_conf ex_sys =
       open_obj_list ex_extern (enableZeroLogs ex_start_conf) (objs ex_start_conf) ex_sys"
    by (simp add: open_objs_def a)
  have c: "open_objs_limit ex_unlimited_env ex_start_conf ex_sys =
       Inr (ex_sys\<lparr>trace :=
              [Sys_setrlimit 18446744073709551615 18446744073709551615,
               Log_msg LOG_ERR ''Unable to set the num open file limit to %d'' [I (- 1)]]\<rparr>)"
    by (simp add: open_objs_limit_def g n to_int_def to_rlim_def emit_def log_msg_def t)
  from g a b c show ?thesis by (simp add: n)
qed

section \<open>Reads before writes\<close>

lemma read_from_obj_trace: "trace (snd (read_from_obj x r s)) = trace s @ [Read_from_obj r]"
  by (simp add: read_from_obj_def emit_def split_beta)

lemma write_to_obj_trace: "trace (snd (write_to_obj x r s)) = trace s @ [Write_to_obj r]"
  by (simp add: write_to_obj_def emit_def split_beta)

lemma connect_telnet_obj_trace:
  "trace (connect_telnet_obj x r s) = trace s @ [Connect_telnet_obj r]"
  by (simp add: connect_telnet_obj_def emit_def split_beta)

lemma mux_write_obj_trace:
  "\<exists>evs \<in> write_events r. trace (snd (mux_write_obj x r s)) = trace s @ evs"
  by (auto simp: mux_write_obj_def write_events_def write_to_obj_trace emit_def split_beta Let_def
      write_to_obj_trace [simplified])

lemma mux_write_obj_called:
  "tpoll_is_set (tp s) (fd (heap s r)) {POLLOUT} \<Longrightarrow>
   \<exists>evs. trace (snd (mux_write_obj x r s)) = trace s @ Write_to_obj r # evs"
  by (auto simp: mux_write_obj_def write_to_obj_trace emit_def split_beta Let_def)

lemma mux_dispatch_obj_trace:
  "\<exists>evs. trace (snd (mux_dispatch_obj x r s)) = trace s @ evs
     \<and> (evs = [] \<or> evs = [Connect_telnet_obj r]
        \<or> evs \<in> write_events r
        \<or> evs = [Read_from_obj r] \<or> evs = [Read_from_obj r, List_delete r]
        \<or> (\<exists>w \<in> write_events r. evs = Read_from_obj r # w))
     \<and> (tpoll_is_set (tp s) (fd (heap s r)) {POLLIN, POLLHUP, POLLERR}
          \<longrightarrow> evs \<notin> write_events r \<or> evs = [])"
proof -
  consider (closed) "fd (heap s r) < 0"
    | (pending) "\<not> fd (heap s r) < 0" "is_telnet_obj (heap s r)
              \<and> tpoll_is_set (tp s) (fd (heap s r)) {POLLIN, POLLOUT}
              \<and> aux_telnet_conState (heap s r) = CONMAN_TELCON_PENDING"
    | (rd) "\<not> fd (heap s r) < 0" "\<not> (is_telnet_obj (heap s r)
              \<and> tpoll_is_set (tp s) (fd (heap s r)) {POLLIN, POLLOUT}
              \<and> aux_telnet_conState (heap s r) = CONMAN_TELCON_PENDING)"
           "tpoll_is_set (tp s) (fd (heap s r)) {POLLIN, POLLHUP, POLLERR}"
    | (wr) "\<not> fd (heap s r) < 0" "\<not> (is_telnet_obj (heap s r)
              \<and> tpoll_is_set (tp s) (fd (heap s r)) {POLLIN, POLLOUT}
              \<and> aux_telnet_conState (heap s r) = CONMAN_TELCON_PENDING)"
           "\<not> tpoll_is_set (tp s) (fd (heap s r)) {POLLIN, POLLHUP, POLLERR}"
    by blast
  then show ?thesis
  proof cases
    case closed
    then show ?thesis by (simp add: mux_dispatch_obj_def)
  next
    case pending
    then show ?thesis
      by (simp add: mux_dispatch_obj_def connect_telnet_obj_trace write_events_def)
  next
    case rd
    obtain rc s1 where r1: "read_from_obj x r s = (rc, s1)" by (cases "read_from_obj x r s")
    with read_from_obj_trace [of x r s] have t1: "trace s1 = trace s @ [Read_from_obj r]" by simp
    from mux_write_obj_trace [of r x s1] obtain w where
      w: "w \<in> write_events r" "trace (snd (mux_write_obj x r s1)) = trace s1 @ w" by blast
    show ?thesis
      using rd r1 t1 w
      by (auto simp: mux_dispatch_obj_def emit_def write_events_def)
  next
    case wr
    from mux_write_obj_trace [of r x s] obtain w where
      w: "w \<in> write_events r" "trace (snd (mux_write_obj x r s)) = trace s @ w" by blast
    with wr show ?thesis
      by (auto simp: mux_dispatch_obj_def)
  qed
qed


lemma mux_dispatch_append:
  "mux_dispatch x (pre @ post) s =
     (fst (mux_dispatch x pre s) @ fst (mux_dispatch x post (snd (mux_dispatch x pre s))),
      snd (mux_dispatch x post (snd (mux_dispatch x pre s))))"
  by (induction pre arbitrary: s) (simp_all add: split_beta Let_def)

lemma mux_dispatch_trace: "\<exists>evs. trace (snd (mux_dispatch x rs s)) = trace s @ evs"
proof (induction rs arbitrary: s)
  case Nil
  then show ?case by simp
next
  case (Cons r rs)
  from mux_dispatch_obj_trace [of x r s] obtain e1 where
    e1: "trace (snd (mux_dispatch_obj x r s)) = trace s @ e1" by blast
  from Cons [of "snd (mux_dispatch_obj x r s)"] obtain e2 where
    "trace (snd (mux_dispatch x rs (snd (mux_dispatch_obj x r s)))) =
       trace (snd (mux_dispatch_obj x r s)) @ e2" by blast
  with e1 show ?case by (simp add: split_beta Let_def)
qed

lemma mux_dispatch_obj_both:
  assumes "\<not> fd (heap s r) < 0"
    and "\<not> (is_telnet_obj (heap s r) \<and> tpoll_is_set (tp s) (fd (heap s r)) {POLLIN, POLLOUT}
            \<and> aux_telnet_conState (heap s r) = CONMAN_TELCON_PENDING)"
    and "tpoll_is_set (tp s) (fd (heap s r)) {POLLIN, POLLHUP, POLLERR}"
    and "\<not> fst (read_from_obj x r s) < 0"
    and "\<not> fd (heap (snd (read_from_obj x r s)) r) < 0"
    and "tpoll_is_set (tp (snd (read_from_obj x r s)))
           (fd (heap (snd (read_from_obj x r s)) r)) {POLLOUT}"
  shows "\<exists>evs. trace (snd (mux_dispatch_obj x r s)) =
           trace s @ Read_from_obj r # Write_to_obj r # evs"
proof -
  obtain rc s1 where r1: "read_from_obj x r s = (rc, s1)" by (cases "read_from_obj x r s")
  with read_from_obj_trace [of x r s] have t1: "trace s1 = trace s @ [Read_from_obj r]" by simp
  from assms(6) r1 have "tpoll_is_set (tp s1) (fd (heap s1 r)) {POLLOUT}" by simp
  from mux_write_obj_called [OF this, of x] obtain evs where
    "trace (snd (mux_write_obj x r s1)) = trace s1 @ Write_to_obj r # evs" by blast
  moreover have "(is_telnet_obj (heap s r) \<and> tpoll_is_set (tp s) (fd (heap s r)) {POLLIN, POLLOUT}
            \<and> aux_telnet_conState (heap s r) = CONMAN_TELCON_PENDING) = False"
    using assms(2) by simp
  ultimately show ?thesis
    using assms(1,3,4,5) r1 t1 by (auto simp: mux_dispatch_obj_def)
qed

text \<open>
  Claim C9. Let the second loop of a tick run over the master list \<open>rs\<close> and let
  \<open>r\<close> be one of its objects, visited in the state the objects before it have left.
  The events of the tick are those of the objects before \<open>r\<close>, then those of \<open>r\<close>,
  then those of the objects after it. Among the events of \<open>r\<close> no read follows a
  write. If \<open>write_to_obj\<close> is called on \<open>r\<close> and a readable, hangup or error bit
  had fired for it, the events of \<open>r\<close> start with the read and then the write. And if
  \<open>r\<close> is open, not a pending telnet that is ready, such a bit fired, the read did
  not fail and left the object open, and the writable bit fired, then both calls are
  made, the read first.
\<close>

theorem reads_before_writes:
  fixes x :: extern and s :: sys and pre :: "ref list"
  defines "at_visit \<equiv> snd (mux_dispatch x pre s)"
  assumes "rs = pre @ r # post"
  shows "\<exists>e_pre evs e_post.
           trace at_visit = trace s @ e_pre
         \<and> trace (snd (mux_dispatch_obj x r at_visit)) = trace s @ e_pre @ evs
         \<and> trace (snd (mux_dispatch x rs s)) = trace s @ e_pre @ evs @ e_post
         \<and> (Write_to_obj r \<in> set evs
              \<and> tpoll_is_set (tp at_visit) (fd (heap at_visit r))
                   {POLLIN, POLLHUP, POLLERR}
              \<longrightarrow> take 2 evs = [Read_from_obj r, Write_to_obj r])
         \<and> (\<forall>i j. i < length evs \<and> j < length evs \<and> evs ! i = Write_to_obj r
                  \<and> evs ! j = Read_from_obj r \<longrightarrow> j < i)
         \<and> (\<not> fd (heap at_visit r) < 0
              \<and> \<not> (is_telnet_obj (heap at_visit r)
                     \<and> tpoll_is_set (tp at_visit) (fd (heap at_visit r))
                          {POLLIN, POLLOUT}
                     \<and> aux_telnet_conState (heap at_visit r) = CONMAN_TELCON_PENDING)
              \<and> tpoll_is_set (tp at_visit) (fd (heap at_visit r))
                   {POLLIN, POLLHUP, POLLERR}
              \<and> \<not> fst (read_from_obj x r at_visit) < 0
              \<and> \<not> fd (heap (snd (read_from_obj x r at_visit)) r) < 0
              \<and> tpoll_is_set (tp (snd (read_from_obj x r at_visit)))
                   (fd (heap (snd (read_from_obj x r at_visit)) r)) {POLLOUT}
              \<longrightarrow> take 2 evs = [Read_from_obj r, Write_to_obj r])"
proof -
  define s1 where "s1 = at_visit"
  define s2 where "s2 = snd (mux_dispatch_obj x r s1)"
  from mux_dispatch_trace [of x pre s] obtain e_pre where
    p: "trace s1 = trace s @ e_pre" unfolding s1_def at_visit_def by blast
  from mux_dispatch_obj_trace [of x r s1] obtain evs where
    v: "trace s2 = trace s1 @ evs"
    and shape: "evs = [] \<or> evs = [Connect_telnet_obj r] \<or> evs \<in> write_events r
        \<or> evs = [Read_from_obj r] \<or> evs = [Read_from_obj r, List_delete r]
        \<or> (\<exists>w \<in> write_events r. evs = Read_from_obj r # w)"
    and rdbl: "tpoll_is_set (tp s1) (fd (heap s1 r)) {POLLIN, POLLHUP, POLLERR}
          \<longrightarrow> evs \<notin> write_events r \<or> evs = []"
    unfolding s2_def by blast
  from mux_dispatch_trace [of x post s2] obtain e_post where
    q: "trace (snd (mux_dispatch x post s2)) = trace s2 @ e_post" by blast
  have whole: "snd (mux_dispatch x rs s) = snd (mux_dispatch x post s2)"
    unfolding assms(2) mux_dispatch_append
    by (simp add: split_beta Let_def s1_def s2_def at_visit_def)
  have a: "Write_to_obj r \<in> set evs
              \<and> tpoll_is_set (tp s1) (fd (heap s1 r)) {POLLIN, POLLHUP, POLLERR}
              \<longrightarrow> take 2 evs = [Read_from_obj r, Write_to_obj r]"
    using shape rdbl by (auto simp: write_events_def numeral_2_eq_2)
  have b: "\<forall>i j. i < length evs \<and> j < length evs \<and> evs ! i = Write_to_obj r
                  \<and> evs ! j = Read_from_obj r \<longrightarrow> j < i"
    using shape by (auto simp: write_events_def nth_Cons less_Suc_eq split: nat.splits)
  have c: "\<not> fd (heap s1 r) < 0
              \<and> \<not> (is_telnet_obj (heap s1 r)
                     \<and> tpoll_is_set (tp s1) (fd (heap s1 r)) {POLLIN, POLLOUT}
                     \<and> aux_telnet_conState (heap s1 r) = CONMAN_TELCON_PENDING)
              \<and> tpoll_is_set (tp s1) (fd (heap s1 r)) {POLLIN, POLLHUP, POLLERR}
              \<and> \<not> fst (read_from_obj x r s1) < 0
              \<and> \<not> fd (heap (snd (read_from_obj x r s1)) r) < 0
              \<and> tpoll_is_set (tp (snd (read_from_obj x r s1)))
                   (fd (heap (snd (read_from_obj x r s1)) r)) {POLLOUT}
              \<longrightarrow> take 2 evs = [Read_from_obj r, Write_to_obj r]"
  proof (intro impI, elim conjE)
    assume h: "\<not> fd (heap s1 r) < 0"
      "\<not> (is_telnet_obj (heap s1 r)
                     \<and> tpoll_is_set (tp s1) (fd (heap s1 r)) {POLLIN, POLLOUT}
                     \<and> aux_telnet_conState (heap s1 r) = CONMAN_TELCON_PENDING)"
      "tpoll_is_set (tp s1) (fd (heap s1 r)) {POLLIN, POLLHUP, POLLERR}"
      "\<not> fst (read_from_obj x r s1) < 0"
      "\<not> fd (heap (snd (read_from_obj x r s1)) r) < 0"
      "tpoll_is_set (tp (snd (read_from_obj x r s1)))
                   (fd (heap (snd (read_from_obj x r s1)) r)) {POLLOUT}"
    from mux_dispatch_obj_both [OF h] obtain e where
      "trace s2 = trace s1 @ Read_from_obj r # Write_to_obj r # e"
      unfolding s2_def by blast
    with v show "take 2 evs = [Read_from_obj r, Write_to_obj r]"
      by (auto simp: numeral_2_eq_2)
  qed
  from p v q whole a b c show ?thesis
    unfolding s1_def [symmetric] s2_def [symmetric]
    by (intro exI [of _ e_pre] exI [of _ evs] exI [of _ e_post]) (simp add: s1_def s2_def)
qed


theorem reads_before_writes_witness:
  "objs ex_conf = [] @ 0 # [1, 2, 3, 4]
   \<and> tpoll_is_set (tp ex_polled_sys) (fd (heap ex_polled_sys 0)) {POLLIN, POLLHUP, POLLERR}
   \<and> tpoll_is_set (tp ex_polled_sys) (fd (heap ex_polled_sys 0)) {POLLOUT}
   \<and> (\<exists>e_pre evs e_post.
         trace (snd (mux_dispatch ex_extern (objs ex_conf) ex_polled_sys)) = e_pre @ evs @ e_post
         \<and> take 2 evs = [Read_from_obj 0, Write_to_obj 0])
   \<and> trace (snd (mux_dispatch ex_extern (objs ex_conf) ex_polled_sys))
        = [Read_from_obj 0, Write_to_obj 0, Write_to_obj 2]"
proof -
  have h: "objs ex_conf = [] @ 0 # [1, 2, 3, 4]" by (simp add: ex_conf_def)
  have p: "tpoll_is_set (tp ex_polled_sys) (fd (heap ex_polled_sys 0)) {POLLIN, POLLHUP, POLLERR}"
    "tpoll_is_set (tp ex_polled_sys) (fd (heap ex_polled_sys 0)) {POLLOUT}"
    by (simp_all add: ex_polled_sys_def ex_defs tpoll_is_set_def)
  have q: "\<not> fd (heap ex_polled_sys 0) < 0" "\<not> is_telnet_obj (heap ex_polled_sys 0)"
    "read_from_obj ex_extern 0 ex_polled_sys = (0, emit (Read_from_obj 0) ex_polled_sys)"
    by (simp_all add: ex_polled_sys_def ex_defs is_telnet_obj_def read_from_obj_def emit_def)
  have q': "tpoll_is_set (tp (emit (Read_from_obj 0) ex_polled_sys))
              (fd (heap (emit (Read_from_obj 0) ex_polled_sys) 0)) {POLLOUT}"
    "\<not> fd (heap (emit (Read_from_obj 0) ex_polled_sys) 0) < 0"
    using p(2) q(1) by (simp_all add: emit_def)
  have t0: "trace ex_polled_sys = []" by (simp add: ex_polled_sys_def ex_sys_def)
  define v where "v = snd (mux_dispatch ex_extern [] ex_polled_sys)"
  have v: "v = ex_polled_sys" by (simp add: v_def)
  from reads_before_writes [OF h, of ex_extern ex_polled_sys, folded v_def]
  obtain e_pre evs e_post where
    w: "trace (snd (mux_dispatch ex_extern (objs ex_conf) ex_polled_sys))
          = trace ex_polled_sys @ e_pre @ evs @ e_post"
    and k: "\<not> fd (heap v 0) < 0
              \<and> \<not> (is_telnet_obj (heap v 0)
                     \<and> tpoll_is_set (tp v) (fd (heap v 0)) {POLLIN, POLLOUT}
                     \<and> aux_telnet_conState (heap v 0) = CONMAN_TELCON_PENDING)
              \<and> tpoll_is_set (tp v) (fd (heap v 0)) {POLLIN, POLLHUP, POLLERR}
              \<and> \<not> fst (read_from_obj ex_extern 0 v) < 0
              \<and> \<not> fd (heap (snd (read_from_obj ex_extern 0 v)) 0) < 0
              \<and> tpoll_is_set (tp (snd (read_from_obj ex_extern 0 v)))
                   (fd (heap (snd (read_from_obj ex_extern 0 v)) 0)) {POLLOUT}
              \<longrightarrow> take 2 evs = [Read_from_obj 0, Write_to_obj 0]"
    by blast
  from k p q q' have "take 2 evs = [Read_from_obj 0, Write_to_obj 0]"
    unfolding v by simp
  with w t0 have a: "\<exists>e_pre evs e_post.
         trace (snd (mux_dispatch ex_extern (objs ex_conf) ex_polled_sys)) = e_pre @ evs @ e_post
         \<and> take 2 evs = [Read_from_obj 0, Write_to_obj 0]"
    by auto
  have b: "trace (snd (mux_dispatch ex_extern (objs ex_conf) ex_polled_sys))
        = [Read_from_obj 0, Write_to_obj 0, Write_to_obj 2]"
    by (simp add: ex_polled_sys_def ex_defs mux_dispatch_obj_def mux_write_obj_def
        read_from_obj_def write_to_obj_def connect_telnet_obj_def emit_def tpoll_is_set_def
        is_telnet_obj_def Let_def)
  from h p a b show ?thesis by blast
qed

section \<open>Accepting clients\<close>

lemma accept_retry_interrupts:
  "accept_retry (replicate k Interrupt @ q) s =
     accept_retry q (s\<lparr>trace := trace s @ replicate k (Sys_accept (- 1))\<rparr>)"
proof (induction k arbitrary: s)
  case 0
  then show ?case by simp
next
  case (Suc k)
  show ?case
    by (simp add: Suc emit_def replicate_app_Cons_same)
qed

lemma created_threads_append:
  "created_threads (xs @ ys) = created_threads xs @ created_threads ys"
  by (induction xs rule: created_threads.induct) simp_all

lemma accept_retry_result:
  "accept_retry q s = Inr (res, q', s') \<Longrightarrow>
     created_threads (trace s') = created_threads (trace s) \<and> (\<exists>n. q' = drop n q)
     \<and> heap s' = heap s \<and> tp s' = tp s"
proof (induction q s rule: accept_retry.induct)
  case (1 s)
  then show ?case by (auto simp: emit_def created_threads_append)
next
  case (2 sd q s)
  then have "q' = drop 1 (Connection sd # q)" by simp
  with 2 show ?case by (auto simp: emit_def created_threads_append simp del: drop_Suc_Cons)
next
  case (3 q s)
  from 3 obtain n where "q' = drop n q" by (auto simp: emit_def created_threads_append)
  then have "q' = drop (Suc n) (Interrupt # q)" by simp
  with 3 show ?case by (auto simp: emit_def created_threads_append simp del: drop_Suc_Cons)
next
  case (4 q s)
  then have "q' = drop 1 (Aborted_connection # q)" by simp
  with 4 show ?case by (auto simp: emit_def created_threads_append simp del: drop_Suc_Cons)
next
  case (5 q s)
  then show ?case by simp
qed

lemma accept_client_result:
  assumes "accept_client ae c q s = Inr (q', s')"
  shows "(\<exists>n. q' = drop n q) \<and> heap s' = heap s \<and> tp s' = tp s
       \<and> (created_threads (trace s') = created_threads (trace s)
          \<or> (\<exists>sd. created_threads (trace s') = created_threads (trace s) @ [sd]))"
proof (cases "accept_retry q s")
  case (Inl h)
  with assms show ?thesis by (simp add: accept_client_def)
next
  case (Inr t)
  obtain res q1 s1 where t: "t = (res, q1, s1)" by (cases t)
  note r = accept_retry_result [OF Inr [unfolded t]]
  show ?thesis
  proof (cases res)
    case None
    with assms Inr t r show ?thesis by (simp add: accept_client_def)
  next
    case (Some sd)
    with assms Inr t have "q' = q1"
      and "s' = emit (Pthread_create_process_client sd)
             (if enableKeepAlive c then emit (Sys_setsockopt_keepalive sd) s1 else s1)"
      by (auto simp: accept_client_def Let_def split: if_splits)
    with r show ?thesis by (auto simp: emit_def created_threads_append)
  qed
qed

lemma accept_client_connection:
  assumes "\<not> (enableKeepAlive c \<and> a_setsockopt ae < 0)" and "a_malloc ae"
    and "a_pthread_create ae = 0"
  shows "accept_client ae c (replicate k Interrupt @ Connection sd # rest) s =
         Inr (rest, s\<lparr>trace := trace s @ replicate k (Sys_accept (- 1)) @ [Sys_accept sd]
                          @ (if enableKeepAlive c then [Sys_setsockopt_keepalive sd] else [])
                          @ [Pthread_create_process_client sd]\<rparr>)"
proof -
  have r: "accept_retry (replicate k Interrupt @ Connection sd # rest) s =
      Inr (Some sd, rest, s\<lparr>trace := trace s @ replicate k (Sys_accept (- 1)) @ [Sys_accept sd]\<rparr>)"
    unfolding accept_retry_interrupts by (simp add: emit_def)
  show ?thesis
  proof (cases "enableKeepAlive c")
    case True
    with assms have "\<not> a_setsockopt ae < 0" by simp
    with True assms(2,3) show ?thesis
      unfolding accept_client_def r by (simp add: emit_def)
  next
    case False
    with assms(2,3) show ?thesis
      unfolding accept_client_def r by (simp add: emit_def)
  qed
qed

lemma accept_client_none:
  "accept_client ae c (replicate k Interrupt) s =
     Inr ([], s\<lparr>trace := trace s @ replicate k (Sys_accept (- 1)) @ [Sys_accept (- 1)]\<rparr>)"
proof -
  have "accept_retry (replicate k Interrupt @ []) s =
      Inr (None, [], s\<lparr>trace := trace s @ replicate k (Sys_accept (- 1)) @ [Sys_accept (- 1)]\<rparr>)"
    unfolding accept_retry_interrupts by (simp add: emit_def)
  then have r: "accept_retry (replicate k Interrupt) s =
      Inr (None, [], s\<lparr>trace := trace s @ replicate k (Sys_accept (- 1)) @ [Sys_accept (- 1)]\<rparr>)"
    by simp
  show ?thesis unfolding accept_client_def r by simp
qed

lemma accept_client_aborted:
  "accept_client ae c (replicate k Interrupt @ Aborted_connection # rest) s =
     Inr (rest, s\<lparr>trace := trace s @ replicate k (Sys_accept (- 1)) @ [Sys_accept (- 1)]\<rparr>)"
proof -
  have r: "accept_retry (replicate k Interrupt @ Aborted_connection # rest) s =
      Inr (None, rest, s\<lparr>trace := trace s @ replicate k (Sys_accept (- 1)) @ [Sys_accept (- 1)]\<rparr>)"
    unfolding accept_retry_interrupts by (simp add: emit_def)
  show ?thesis unfolding accept_client_def r by simp
qed

text \<open>
  Claim C3, amended. When the listening socket is readable in a tick, \<open>mux_io\<close>
  calls \<open>accept_client\<close> once, and one call accepts at most one connection: it
  repeats \<^verbatim>\<open>accept\<close> only while the call is interrupted, takes the first pending
  connection, sets keep-alive if enabled, and creates one thread that runs
  \<^verbatim>\<open>process_client\<close> on the accepted descriptor; the connections behind it stay
  pending. With nothing pending (\<^verbatim>\<open>EAGAIN\<close>, \<^verbatim>\<open>EWOULDBLOCK\<close>) or an aborted
  connection it returns without a thread. It changes neither the objects nor the timed
  poll.
\<close>

theorem accept_client_one:
  "(\<forall>q' s'. accept_client ae c q s = Inr (q', s') \<longrightarrow>
       (\<exists>n. q' = drop n q) \<and> heap s' = heap s \<and> tp s' = tp s
       \<and> (created_threads (trace s') = created_threads (trace s)
          \<or> (\<exists>sd. created_threads (trace s') = created_threads (trace s) @ [sd])))
   \<and> (\<not> (enableKeepAlive c \<and> a_setsockopt ae < 0) \<and> a_malloc ae \<and> a_pthread_create ae = 0 \<longrightarrow>
       accept_client ae c (replicate k Interrupt @ Connection sd # rest) s =
         Inr (rest, s\<lparr>trace := trace s @ replicate k (Sys_accept (- 1)) @ [Sys_accept sd]
                          @ (if enableKeepAlive c then [Sys_setsockopt_keepalive sd] else [])
                          @ [Pthread_create_process_client sd]\<rparr>))
   \<and> accept_client ae c (replicate k Interrupt) s =
         Inr ([], s\<lparr>trace := trace s @ replicate k (Sys_accept (- 1)) @ [Sys_accept (- 1)]\<rparr>)
   \<and> accept_client ae c (replicate k Interrupt @ Aborted_connection # rest) s =
         Inr (rest, s\<lparr>trace := trace s @ replicate k (Sys_accept (- 1)) @ [Sys_accept (- 1)]\<rparr>)
   \<and> mux_io_accept ae c q s =
         (if tpoll_is_set (tp s) (ld c) {POLLIN} then accept_client ae c q s else Inr (q, s))"
proof (intro conjI allI impI)
  fix q' s' assume a: "accept_client ae c q s = Inr (q', s')"
  note r = accept_client_result [OF a]
  from r show "\<exists>n. q' = drop n q" by blast
  from r show "heap s' = heap s" by blast
  from r show "tp s' = tp s" by blast
  from r show "created_threads (trace s') = created_threads (trace s)
          \<or> (\<exists>sd. created_threads (trace s') = created_threads (trace s) @ [sd])" by blast
next
  assume "\<not> (enableKeepAlive c \<and> a_setsockopt ae < 0) \<and> a_malloc ae \<and> a_pthread_create ae = 0"
  then show "accept_client ae c (replicate k Interrupt @ Connection sd # rest) s =
         Inr (rest, s\<lparr>trace := trace s @ replicate k (Sys_accept (- 1)) @ [Sys_accept sd]
                          @ (if enableKeepAlive c then [Sys_setsockopt_keepalive sd] else [])
                          @ [Pthread_create_process_client sd]\<rparr>)"
    by (intro accept_client_connection) blast+
next
  show "accept_client ae c (replicate k Interrupt) s =
         Inr ([], s\<lparr>trace := trace s @ replicate k (Sys_accept (- 1)) @ [Sys_accept (- 1)]\<rparr>)"
    by (rule accept_client_none)
next
  show "accept_client ae c (replicate k Interrupt @ Aborted_connection # rest) s =
         Inr (rest, s\<lparr>trace := trace s @ replicate k (Sys_accept (- 1)) @ [Sys_accept (- 1)]\<rparr>)"
    by (rule accept_client_aborted)
next
  show "mux_io_accept ae c q s =
         (if tpoll_is_set (tp s) (ld c) {POLLIN} then accept_client ae c q s else Inr (q, s))"
    by (simp add: mux_io_accept_def)
qed

theorem accept_client_one_witness:
  "\<not> (enableKeepAlive ex_conf \<and> a_setsockopt ex_accept_env < 0) \<and> a_malloc ex_accept_env
   \<and> a_pthread_create ex_accept_env = 0
   \<and> accept_client ex_accept_env ex_conf [Interrupt, Connection 7, Connection 8] ex_polled_sys =
       Inr ([Connection 8],
            ex_polled_sys\<lparr>trace := [Sys_accept (- 1), Sys_accept 7, Sys_setsockopt_keepalive 7,
                                    Pthread_create_process_client 7]\<rparr>)"
proof -
  have h: "\<not> (enableKeepAlive ex_conf \<and> a_setsockopt ex_accept_env < 0) \<and> a_malloc ex_accept_env
      \<and> a_pthread_create ex_accept_env = 0"
    by (simp add: ex_accept_env_def)
  have e: "enableKeepAlive ex_conf" "trace ex_polled_sys = []"
    by (simp_all add: ex_conf_def ex_polled_sys_def ex_sys_def)
  have l: "replicate (Suc 0) Interrupt @ Connection 7 # [Connection 8]
             = [Interrupt, Connection 7, Connection 8]"
    by simp
  from accept_client_one [of ex_accept_env ex_conf "[]" ex_polled_sys "Suc 0" 7 "[Connection 8]"]
  have "\<not> (enableKeepAlive ex_conf \<and> a_setsockopt ex_accept_env < 0) \<and> a_malloc ex_accept_env
          \<and> a_pthread_create ex_accept_env = 0 \<longrightarrow>
       accept_client ex_accept_env ex_conf
           (replicate (Suc 0) Interrupt @ Connection 7 # [Connection 8]) ex_polled_sys =
         Inr ([Connection 8],
              ex_polled_sys\<lparr>trace := trace ex_polled_sys @ replicate (Suc 0) (Sys_accept (- 1))
                 @ [Sys_accept 7]
                 @ (if enableKeepAlive ex_conf then [Sys_setsockopt_keepalive 7] else [])
                 @ [Pthread_create_process_client 7]\<rparr>)"
    by blast
  with h have "accept_client ex_accept_env ex_conf
           (replicate (Suc 0) Interrupt @ Connection 7 # [Connection 8]) ex_polled_sys =
         Inr ([Connection 8],
              ex_polled_sys\<lparr>trace := trace ex_polled_sys @ replicate (Suc 0) (Sys_accept (- 1))
                 @ [Sys_accept 7]
                 @ (if enableKeepAlive ex_conf then [Sys_setsockopt_keepalive 7] else [])
                 @ [Pthread_create_process_client 7]\<rparr>)"
    by blast
  then have "accept_client ex_accept_env ex_conf [Interrupt, Connection 7, Connection 8]
               ex_polled_sys =
       Inr ([Connection 8],
            ex_polled_sys\<lparr>trace := [Sys_accept (- 1), Sys_accept 7, Sys_setsockopt_keepalive 7,
                                    Pthread_create_process_client 7]\<rparr>)"
    unfolding l by (simp add: e)
  with h show ?thesis by blast
qed

text \<open>
  Claim C3 as stated fails: with two connections pending on a readable listening
  socket, the tick accepts the first and leaves the second pending, although
  \<^verbatim>\<open>accept\<close> would not block.
\<close>

theorem accept_all_pending_counterexample:
  "tpoll_is_set (tp ex_polled_sys) (ld ex_conf) {POLLIN}
   \<and> mux_io_accept ex_accept_env ex_conf [Connection 7, Connection 8] ex_polled_sys =
       Inr ([Connection 8],
            ex_polled_sys\<lparr>trace := [Sys_accept 7, Sys_setsockopt_keepalive 7,
                                    Pthread_create_process_client 7]\<rparr>)"
  by (simp add: mux_io_accept_def accept_client_def emit_def Let_def tpoll_is_set_def
      ex_polled_sys_def ex_sys_def ex_tpoll_def ex_conf_def ex_accept_env_def)

section \<open>Failure to open the daemon's logfile\<close>

lemma close_logFilePtr_trace:
  "\<exists>evs. trace (close_logFilePtr le c s) = trace s @ evs \<and> heap (close_logFilePtr le c s) = heap s
      \<and> tp (close_logFilePtr le c s) = tp s"
  by (auto simp: close_logFilePtr_def emit_def log_msg_def Let_def split: option.splits)

lemma open_daemon_logfile_err_result:
  "logFilePtr (fst (open_daemon_logfile_err le c s)) = None
   \<and> logFileName (fst (open_daemon_logfile_err le c s)) = logFileName c
   \<and> (\<exists>evs. trace (snd (open_daemon_logfile_err le c s)) = trace s @ Log_set_file None # evs)"
  using close_logFilePtr_trace [of le c "emit (Log_set_file None) s"]
  by (auto simp: open_daemon_logfile_err_def emit_def)


lemma open_daemon_logfile_fails:
  assumes "logfile_open_fails x le c"
  shows "logFilePtr (fst (open_daemon_logfile x le c s)) = None
       \<and> (\<exists>evs. trace (snd (open_daemon_logfile x le c s)) = trace s @ evs
             \<and> (\<exists>fmt args. Log_msg LOG_WARNING fmt args \<in> set evs)
             \<and> Log_set_file None \<in> set evs)"
proof -
  have err: "logFilePtr (fst (open_daemon_logfile_err le c' s')) = None
       \<and> (\<exists>evs. trace (snd (open_daemon_logfile_err le c' s')) = trace s @ evs
             \<and> (\<exists>fmt args. Log_msg LOG_WARNING fmt args \<in> set evs)
             \<and> Log_set_file None \<in> set evs)"
    if "trace s' = trace s @ pre" and "\<exists>f a. Log_msg LOG_WARNING f a \<in> set pre" for c' s' pre
  proof -
    from open_daemon_logfile_err_result [of le c' s'] obtain evs where
      "logFilePtr (fst (open_daemon_logfile_err le c' s')) = None"
      and "trace (snd (open_daemon_logfile_err le c' s')) = trace s' @ Log_set_file None # evs"
      by blast
    with that show ?thesis
      by (intro conjI exI [of _ "pre @ Log_set_file None # evs"]) auto
  qed
  define mode where "mode = (if once s \<and> enableZeroLogs c then ''w'' else ''a'')"
  define s0 where "s0 = s\<lparr>once := False\<rparr>"
  have s0: "trace s0 = trace s" by (simp add: s0_def)
  show ?thesis
  proof (cases "expand_log_name x c")
    case None
    have eq: "open_daemon_logfile x le c s = open_daemon_logfile_err le c
        (log_msg LOG_WARNING ''Unable to open daemon logfile: filename too long'' [] s0)"
      by (simp add: open_daemon_logfile_def None Let_def s0_def)
    show ?thesis
      unfolding eq by (rule err) (auto simp: log_msg_def s0)
  next
    case (Some c')
    define s1 where "s1 = emit (Sys_fopen (log_file_name c') mode) s0"
    have s1: "trace s1 = trace s @ [Sys_fopen (log_file_name c') mode]"
      by (simp add: s1_def emit_def s0)
    show ?thesis
    proof (cases "l_fopen le")
      case None
      have eq: "open_daemon_logfile x le c s = open_daemon_logfile_err le c'
          (log_msg LOG_WARNING (''Unable to open daemon logfile '' @ dq @ ''%s'' @ dq @ '': %s'')
             [S (log_file_name c'), Errno] s1)"
        by (simp add: open_daemon_logfile_def Some None Let_def s0_def s1_def mode_def)
      show ?thesis
        unfolding eq by (rule err) (auto simp: log_msg_def s1)
    next
      case fp: (Some fp)
      show ?thesis
      proof (cases "l_fileno le < 0")
        case True
        have eq: "open_daemon_logfile x le c s = open_daemon_logfile_err le c'
            (log_msg LOG_WARNING
               (''Unable to obtain descriptor for daemon logfile '' @ dq @ ''%s'' @ dq @ '': %s'')
               [S (log_file_name c'), Errno] s1)"
          by (simp add: open_daemon_logfile_def Some fp True Let_def s0_def s1_def mode_def)
        show ?thesis
          unfolding eq by (rule err) (auto simp: log_msg_def s1)
      next
        case False
        with assms Some fp have lk: "l_get_write_lock le < 0"
          by (simp add: logfile_open_fails_def)
        define s2 where "s2 = log_msg LOG_WARNING
            (''Unable to lock daemon logfile '' @ dq @ ''%s'' @ dq) [S (log_file_name c')] s1"
        define s4 where "s4 = (if l_fclose_EOF le fp then
            log_msg LOG_WARNING (''Unable to close daemon logfile '' @ dq @ ''%s'' @ dq)
              [S (log_file_name c')] (emit (Sys_fclose fp) s2)
            else emit (Sys_fclose fp) s2)"
        have eq: "open_daemon_logfile x le c s = open_daemon_logfile_err le c' s4"
          by (simp add: open_daemon_logfile_def Some fp False lk Let_def s0_def s1_def s2_def
              s4_def mode_def)
        have "\<exists>pre. trace s4 = trace s @ pre \<and> (\<exists>f a. Log_msg LOG_WARNING f a \<in> set pre)"
          by (auto simp: s4_def s2_def log_msg_def emit_def s1)
        then obtain pre where "trace s4 = trace s @ pre"
          "\<exists>f a. Log_msg LOG_WARNING f a \<in> set pre" by blast
        then show ?thesis
          unfolding eq by (rule err)
      qed
    qed
  qed
qed

lemma open_daemon_logfile_name:
  "logFileName c \<noteq> None \<Longrightarrow> logFileName (fst (open_daemon_logfile x le c s)) \<noteq> None"
  by (auto simp: open_daemon_logfile_def open_daemon_logfile_err_def expand_log_name_def Let_def
      split: option.splits)


text \<open>
  Claim C7, amended. When the daemon's logfile cannot be opened at startup (its
  expanded name does not fit, \<^verbatim>\<open>fopen\<close> fails, the stream has no descriptor, or
  the write lock is refused), the failure is not fatal: \<open>open_daemon_logfile\<close> logs
  a warning, turns file logging off, leaves the configuration without a log stream
  and returns; \<open>main\<close> then ends the daemonization, logs the start message and
  opens the objects as it does after a successful open.
\<close>

theorem daemon_logfile_failure:
  fixes x :: extern and le :: logfile_env and c :: conf and s :: sys
  defines "odl \<equiv> open_daemon_logfile x le c
             (if syslogFacility c > 0 then emit (Log_set_syslog (syslogFacility c)) s else s)"
  assumes "logFileName c \<noteq> None" and "logfile_open_fails x le c"
  shows "logFilePtr (fst (open_daemon_logfile x le c s)) = None
       \<and> (\<exists>evs. trace (snd (open_daemon_logfile x le c s)) = trace s @ evs
             \<and> (\<exists>fmt args. Log_msg LOG_WARNING fmt args \<in> set evs)
             \<and> Log_set_file None \<in> set evs)
       \<and> main_startup x e le None pipe_fd version pid c s =
           (case open_objs x e (fst odl)
                   (log_msg LOG_NOTICE ''Starting ConMan daemon %s (pid %d)'' [S version, I pid]
                      (emit End_daemonize (snd odl))) of
              Inl h \<Rightarrow> Inl h
            | Inr s6 \<Rightarrow> Inr (fst odl, s6))"
proof -
  have n: "logFileName (fst odl) \<noteq> None"
    unfolding odl_def by (rule open_daemon_logfile_name [OF assms(2)])
  have "main_startup x e le None pipe_fd version pid c s =
           (case open_objs x e (fst odl)
                   (log_msg LOG_NOTICE ''Starting ConMan daemon %s (pid %d)'' [S version, I pid]
                      (emit End_daemonize (snd odl))) of
              Inl h \<Rightarrow> Inl h
            | Inr s6 \<Rightarrow> Inr (fst odl, s6))"
    unfolding main_startup_def Let_def odl_def [symmetric]
    using assms(2) n by (auto simp: end_daemonize_def split_beta)
  with open_daemon_logfile_fails [OF assms(3), of s] show ?thesis by blast
qed

lemma ex_odl:
  "open_daemon_logfile ex_extern ex_logfile_env ex_start_conf ex_sys =
     (ex_start_conf\<lparr>logFilePtr := None\<rparr>,
      ex_sys\<lparr>once := False, trace :=
        [Sys_fopen ''/var/log/conman.log'' ''a'',
         Log_msg LOG_WARNING (''Unable to lock daemon logfile '' @ dq @ ''%s'' @ dq)
           [S ''/var/log/conman.log''],
         Sys_fclose 1, Log_set_file None]\<rparr>)"
  by (simp add: open_daemon_logfile_def open_daemon_logfile_err_def close_logFilePtr_def
      expand_log_name_def log_file_name_def ex_logfile_env_def ex_start_conf_def ex_conf_def
      ex_sys_def log_msg_def emit_def Let_def)


lemma ex_open_obj_list:
  "heap s = ex_heap \<Longrightarrow>
   open_obj_list ex_extern False [0, 1, 3, 4] s =
     Inr (s\<lparr>trace := trace s @ [Open_serial_obj 0, Open_logfile_obj 1 False,
                                 Connect_telnet_obj 3, Connect_telnet_obj 4]\<rparr>)"
  by (simp add: ex_extern_def ex_heap_def ex_obj_def emit_def is_serial_obj_def is_telnet_obj_def
      is_logfile_obj_def)

lemma ex_open_objs_limit:
  "open_objs_limit ex_env (ex_start_conf\<lparr>logFilePtr := None\<rparr>) s =
     Inr (s\<lparr>trace := trace s @ [Sys_setrlimit 4096 4096,
            Log_msg LOG_INFO ''Increased the num open file limit to %d'' [I 4096]]\<rparr>)"
  by (simp add: open_objs_limit_def ex_env_def ex_start_conf_def ex_conf_def to_int_def to_rlim_def
      emit_def log_msg_def)


lemma ex_main_startup:
  "main_startup ex_extern ex_env ex_logfile_env None 5 ''0.1.9.2'' 4242 ex_start_conf ex_sys =
     Inr (ex_start_conf\<lparr>logFilePtr := None\<rparr>,
          ex_sys\<lparr>once := False, trace :=
            [Sys_fopen ''/var/log/conman.log'' ''a'',
             Log_msg LOG_WARNING (''Unable to lock daemon logfile '' @ dq @ ''%s'' @ dq)
               [S ''/var/log/conman.log''],
             Sys_fclose 1, Log_set_file None, End_daemonize,
             Log_msg LOG_NOTICE ''Starting ConMan daemon %s (pid %d)'' [S ''0.1.9.2'', I 4242],
             Sys_setrlimit 4096 4096,
             Log_msg LOG_INFO ''Increased the num open file limit to %d'' [I 4096],
             Open_serial_obj 0, Open_logfile_obj 1 False, Connect_telnet_obj 3,
             Connect_telnet_obj 4]\<rparr>)"
proof -
  define c' where "c' = ex_start_conf\<lparr>logFilePtr := None\<rparr>"
  define sA where "sA = ex_sys\<lparr>once := False, trace :=
        [Sys_fopen ''/var/log/conman.log'' ''a'',
         Log_msg LOG_WARNING (''Unable to lock daemon logfile '' @ dq @ ''%s'' @ dq)
           [S ''/var/log/conman.log''],
         Sys_fclose 1, Log_set_file None]\<rparr>"
  define s5 where "s5 = log_msg LOG_NOTICE ''Starting ConMan daemon %s (pid %d)''
                     [S ''0.1.9.2'', I 4242] (emit End_daemonize sA)"
  define s6 where "s6 = s5\<lparr>trace := trace s5 @ [Sys_setrlimit 4096 4096,
            Log_msg LOG_INFO ''Increased the num open file limit to %d'' [I 4096]]\<rparr>"
  define s7 where "s7 = s6\<lparr>trace := trace s6 @ [Open_serial_obj 0, Open_logfile_obj 1 False,
                                 Connect_telnet_obj 3, Connect_telnet_obj 4]\<rparr>"
  have c: "syslogFacility ex_start_conf = 0" "logFileName ex_start_conf \<noteq> None"
    "logFileName c' \<noteq> None" "enableZeroLogs c' = False" "objs c' = [0, 1, 3, 4]"
    by (simp_all add: c'_def ex_start_conf_def ex_conf_def)
  have odl: "open_daemon_logfile ex_extern ex_logfile_env ex_start_conf ex_sys = (c', sA)"
    unfolding c'_def sA_def by (rule ex_odl)
  have lim: "open_objs_limit ex_env c' s5 = Inr s6"
    unfolding c'_def s6_def by (rule ex_open_objs_limit)
  have "heap s6 = ex_heap"
    by (simp add: s6_def s5_def sA_def log_msg_def emit_def ex_sys_def)
  then have ol: "open_obj_list ex_extern False [0, 1, 3, 4] s6 = Inr s7"
    unfolding s7_def by (rule ex_open_obj_list)
  have oo: "open_objs ex_extern ex_env c' s5 = Inr s7"
    unfolding open_objs_def lim c(4,5) by (simp only: sum.case ol)
  have m: "main_startup ex_extern ex_env ex_logfile_env None 5 ''0.1.9.2'' 4242 ex_start_conf ex_sys
             = Inr (c', s7)"
    unfolding main_startup_def Let_def
    using c(2,3) by (auto simp: c(1) odl end_daemonize_def s5_def [symmetric] oo)
  have "s7 = ex_sys\<lparr>once := False, trace :=
            [Sys_fopen ''/var/log/conman.log'' ''a'',
             Log_msg LOG_WARNING (''Unable to lock daemon logfile '' @ dq @ ''%s'' @ dq)
               [S ''/var/log/conman.log''],
             Sys_fclose 1, Log_set_file None, End_daemonize,
             Log_msg LOG_NOTICE ''Starting ConMan daemon %s (pid %d)'' [S ''0.1.9.2'', I 4242],
             Sys_setrlimit 4096 4096,
             Log_msg LOG_INFO ''Increased the num open file limit to %d'' [I 4096],
             Open_serial_obj 0, Open_logfile_obj 1 False, Connect_telnet_obj 3,
             Connect_telnet_obj 4]\<rparr>"
    by (simp add: s7_def s6_def s5_def sA_def log_msg_def emit_def)
  with m show ?thesis by (simp add: c'_def)
qed

text \<open>
  Claim C7 as stated fails: with the write lock of the logfile refused, the startup of
  the example does not halt. The warning is logged before the daemonization ends, the
  start message follows and the objects are opened.
\<close>

theorem daemon_logfile_fatal_counterexample:
  "logFileName ex_start_conf = Some ''/var/log/conman.log''
   \<and> l_get_write_lock ex_logfile_env < 0
   \<and> \<not> isl (main_startup ex_extern ex_env ex_logfile_env None 5 ''0.1.9.2'' 4242
               ex_start_conf ex_sys)
   \<and> logFilePtr (fst (projr (main_startup ex_extern ex_env ex_logfile_env None 5 ''0.1.9.2'' 4242
               ex_start_conf ex_sys))) = None
   \<and> trace (snd (projr (main_startup ex_extern ex_env ex_logfile_env None 5 ''0.1.9.2'' 4242
               ex_start_conf ex_sys))) =
       [Sys_fopen ''/var/log/conman.log'' ''a'',
        Log_msg LOG_WARNING (''Unable to lock daemon logfile '' @ dq @ ''%s'' @ dq)
          [S ''/var/log/conman.log''],
        Sys_fclose 1, Log_set_file None, End_daemonize,
        Log_msg LOG_NOTICE ''Starting ConMan daemon %s (pid %d)'' [S ''0.1.9.2'', I 4242],
        Sys_setrlimit 4096 4096,
        Log_msg LOG_INFO ''Increased the num open file limit to %d'' [I 4096],
        Open_serial_obj 0, Open_logfile_obj 1 False, Connect_telnet_obj 3, Connect_telnet_obj 4]"
  unfolding ex_main_startup
  by (simp add: ex_start_conf_def ex_conf_def ex_logfile_env_def)

theorem daemon_logfile_failure_witness:
  "logFileName ex_start_conf \<noteq> None \<and> logfile_open_fails ex_extern ex_logfile_env ex_start_conf
   \<and> logFilePtr (fst (open_daemon_logfile ex_extern ex_logfile_env ex_start_conf ex_sys)) = None
   \<and> (\<exists>evs. trace (snd (open_daemon_logfile ex_extern ex_logfile_env ex_start_conf ex_sys)) = evs
         \<and> (\<exists>fmt args. Log_msg LOG_WARNING fmt args \<in> set evs) \<and> Log_set_file None \<in> set evs)
   \<and> \<not> isl (main_startup ex_extern ex_env ex_logfile_env None 5 ''0.1.9.2'' 4242
               ex_start_conf ex_sys)"
proof -
  have h: "logFileName ex_start_conf \<noteq> None"
    "logfile_open_fails ex_extern ex_logfile_env ex_start_conf"
    by (simp_all add: ex_start_conf_def ex_conf_def logfile_open_fails_def ex_logfile_env_def)
  have t: "trace ex_sys = []" by (simp add: ex_sys_def)
  note th = daemon_logfile_failure [OF h, of ex_sys ex_env 5 "''0.1.9.2''" 4242]
  from th have a: "logFilePtr (fst (open_daemon_logfile ex_extern ex_logfile_env ex_start_conf
      ex_sys)) = None" by blast
  from th have b: "\<exists>evs. trace (snd (open_daemon_logfile ex_extern ex_logfile_env ex_start_conf
        ex_sys)) = evs
         \<and> (\<exists>fmt args. Log_msg LOG_WARNING fmt args \<in> set evs) \<and> Log_set_file None \<in> set evs"
    unfolding t by auto
  have c: "\<not> isl (main_startup ex_extern ex_env ex_logfile_env None 5 ''0.1.9.2'' 4242
               ex_start_conf ex_sys)"
    unfolding ex_main_startup by simp
  from h a b c show ?thesis by blast
qed
end
